theory Spec2Isabelle
  imports Complex_Main "HOL-Library.AList"
begin

section \<open>JavaScript numbers\<close>

text \<open>
  A JavaScript number is \<open>NaN\<close>, one of the two infinities, or a finite value. Finite
  values are idealised as exact reals: rounding to a double, overflow of a finite
  operation and the sign of zero (\<open>-0\<close> is identified with \<open>0\<close>) are not modelled.
\<close>

datatype jsnum = NaN | NegInf | Fin real | PosInf



text \<open>Truthiness of a number, as \<open>x || 0\<close> tests it: \<open>NaN\<close> and zero are falsy.\<close>

fun truthy_num :: "jsnum \<Rightarrow> bool" where
  "truthy_num NaN = False"
| "truthy_num (Fin r) = (r \<noteq> 0)"
| "truthy_num _ = True"

text \<open>The expression \<open>x || 0\<close> on a number \<open>x\<close>.\<close>

definition or_zero :: "jsnum \<Rightarrow> jsnum" where
  "or_zero v = (if truthy_num v then v else Fin 0)"

text \<open>\<open>a + b\<close> on numbers.\<close>

fun js_add :: "jsnum \<Rightarrow> jsnum \<Rightarrow> jsnum" where
  "js_add NaN _ = NaN"
| "js_add _ NaN = NaN"
| "js_add PosInf NegInf = NaN"
| "js_add NegInf PosInf = NaN"
| "js_add PosInf _ = PosInf"
| "js_add _ PosInf = PosInf"
| "js_add NegInf _ = NegInf"
| "js_add _ NegInf = NegInf"
| "js_add (Fin a) (Fin b) = Fin (a + b)"

text \<open>The sign of a number that is not \<open>NaN\<close>: \<open>-1\<close>, \<open>0\<close> or \<open>1\<close>.\<close>

fun js_sign :: "jsnum \<Rightarrow> int" where
  "js_sign NaN = 0"
| "js_sign NegInf = - 1"
| "js_sign PosInf = 1"
| "js_sign (Fin r) = (if r < 0 then - 1 else if r = 0 then 0 else 1)"

definition signed_inf :: "int \<Rightarrow> jsnum" where
  "signed_inf s = (if s < 0 then NegInf else PosInf)"

text \<open>\<open>a * b\<close> on numbers: an infinity times zero is \<open>NaN\<close>.\<close>

fun js_mul :: "jsnum \<Rightarrow> jsnum \<Rightarrow> jsnum" where
  "js_mul NaN _ = NaN"
| "js_mul _ NaN = NaN"
| "js_mul (Fin a) (Fin b) = Fin (a * b)"
| "js_mul a b =
     (if js_sign a = 0 \<or> js_sign b = 0 then NaN else signed_inf (js_sign a * js_sign b))"

text \<open>
  \<open>a / b\<close> on numbers: \<open>0 / 0\<close> and the quotient of two infinities are \<open>NaN\<close>, a
  nonzero finite value over zero is an infinity, a finite value over an infinity is zero.
\<close>

fun js_div :: "jsnum \<Rightarrow> jsnum \<Rightarrow> jsnum" where
  "js_div NaN _ = NaN"
| "js_div _ NaN = NaN"
| "js_div (Fin a) (Fin b) =
     (if b = 0 then (if a = 0 then NaN else signed_inf (js_sign (Fin a))) else Fin (a / b))"
| "js_div (Fin a) _ = Fin 0"
| "js_div a (Fin b) = signed_inf (js_sign a * (if b < 0 then - 1 else 1))"
| "js_div _ _ = NaN"

text \<open>\<open>Math.ceil\<close>.\<close>

fun Math_ceil :: "jsnum \<Rightarrow> jsnum" where
  "Math_ceil (Fin r) = Fin (of_int \<lceil>r\<rceil>)"
| "Math_ceil v = v"

text \<open>\<open>Math.max\<close> of two numbers, and of an argument list (from \<open>-Infinity\<close>).\<close>

fun js_max2 :: "jsnum \<Rightarrow> jsnum \<Rightarrow> jsnum" where
  "js_max2 NaN _ = NaN"
| "js_max2 _ NaN = NaN"
| "js_max2 PosInf _ = PosInf"
| "js_max2 _ PosInf = PosInf"
| "js_max2 NegInf b = b"
| "js_max2 a NegInf = a"
| "js_max2 (Fin a) (Fin b) = Fin (max a b)"

definition Math_max :: "jsnum list \<Rightarrow> jsnum" where
  "Math_max args = foldl js_max2 NegInf args"

section \<open>Strings\<close>

text \<open>
  Strings are lists of code units. The white space that \<open>String.prototype.trim\<close> and
  \<open>parseFloat\<close> strip: tab, line feed, vertical tab, form feed, carriage return, space
  and the no-break space.
\<close>

definition isWhiteSpace :: "char \<Rightarrow> bool" where
  "isWhiteSpace c = (c \<in> set [CHR 0x09, CHR 0x0A, CHR 0x0B, CHR 0x0C, CHR 0x0D, CHR 0x20, CHR 0xA0])"

definition trimStart :: "string \<Rightarrow> string" where
  "trimStart s = dropWhile isWhiteSpace s"

definition trimEnd :: "string \<Rightarrow> string" where
  "trimEnd s = rev (dropWhile isWhiteSpace (rev s))"

definition trim :: "string \<Rightarrow> string" where
  "trim s = trimEnd (trimStart s)"

text \<open>A string is trimmed when it neither begins nor ends with a white space character.\<close>

definition is_trimmed :: "string \<Rightarrow> bool" where
  "is_trimmed s = (case s of [] \<Rightarrow> True | c # _ \<Rightarrow> \<not> isWhiteSpace c \<and> \<not> isWhiteSpace (last s))"

text \<open>\<open>s.split(sep)\<close> for a one-character separator: one more piece than separators.\<close>

fun split :: "char \<Rightarrow> string \<Rightarrow> string list" where
  "split sep [] = [[]]"
| "split sep (c # cs) =
     (if c = sep then [] # split sep cs
      else (case split sep cs of p # ps \<Rightarrow> (c # p) # ps | [] \<Rightarrow> [[c]]))"

text \<open>Truthiness of a string, as \<open>&&\<close>, \<open>||\<close> and \<open>filter\<close> test it: only \<open>''\<close> is falsy.\<close>

definition truthy_str :: "string \<Rightarrow> bool" where
  "truthy_str s = (s \<noteq> [])"

text \<open>The decimal digits of a natural number and of an integer, as a template literal prints them.\<close>

definition digit_char :: "nat \<Rightarrow> char" where
  "digit_char d = char_of (48 + d)"

fun digits_of :: "nat \<Rightarrow> string" where
  "digits_of n = (if n < 10 then [digit_char n] else digits_of (n div 10) @ [digit_char (n mod 10)])"

declare digits_of.simps [simp del]

definition toString :: "int \<Rightarrow> string" where
  "toString i = (if i < 0 then CHR ''-'' # digits_of (nat (- i)) else digits_of (nat i))"

section \<open>parseFloat\<close>

definition isDigit :: "char \<Rightarrow> bool" where
  "isDigit c = (48 \<le> (of_char c :: nat) \<and> (of_char c :: nat) \<le> 57)"

definition digit_val :: "char \<Rightarrow> nat" where
  "digit_val c = of_char c - 48"

text \<open>The value of a string of decimal digits (\<open>0\<close> for the empty string).\<close>

definition digits_val :: "string \<Rightarrow> nat" where
  "digits_val ds = foldl (\<lambda>acc c. 10 * acc + digit_val c) 0 ds"

text \<open>
  The exponent part that follows the mantissa: \<open>e\<close> or \<open>E\<close>, an optional sign and at
  least one digit; anything else is not part of the literal and counts as exponent \<open>0\<close>.
\<close>

definition exponent_part :: "string \<Rightarrow> int" where
  "exponent_part s =
     (case s of
        [] \<Rightarrow> 0
      | c # r \<Rightarrow>
          if c = CHR ''e'' \<or> c = CHR ''E'' then
            (case r of
               [] \<Rightarrow> 0
             | d # r' \<Rightarrow>
                 if d = CHR ''-'' then
                   (if takeWhile isDigit r' = [] then 0 else - int (digits_val (takeWhile isDigit r')))
                 else if d = CHR ''+'' then int (digits_val (takeWhile isDigit r'))
                 else int (digits_val (takeWhile isDigit r)))
          else 0)"

definition scale10 :: "real \<Rightarrow> int \<Rightarrow> real" where
  "scale10 m e = (if 0 \<le> e then m * 10 ^ nat e else m / 10 ^ nat (- e))"

text \<open>
  \<open>parseFloat(s)\<close>: leading white space is skipped, then the longest prefix that is a
  decimal literal (optional sign; \<open>Infinity\<close>, or digits with an optional fraction and an
  optional exponent) is converted; \<open>NaN\<close> when there is no such prefix.
\<close>

definition parseFloat :: "string \<Rightarrow> jsnum" where
  "parseFloat s =
     (let t = trimStart s;
          neg = (case t of c # _ \<Rightarrow> c = CHR ''-'' | [] \<Rightarrow> False);
          u = (case t of c # r \<Rightarrow> if c = CHR ''-'' \<or> c = CHR ''+'' then r else t | [] \<Rightarrow> t)
      in if take 8 u = ''Infinity'' then (if neg then NegInf else PosInf)
         else
           let ip = takeWhile isDigit u;
               r1 = dropWhile isDigit u;
               fp = (case r1 of c # r \<Rightarrow> if c = CHR ''.'' then takeWhile isDigit r else [] | [] \<Rightarrow> []);
               r2 = (case r1 of c # r \<Rightarrow> if c = CHR ''.'' then dropWhile isDigit r else r1 | [] \<Rightarrow> r1)
           in if ip = [] \<and> fp = [] then NaN
              else
                let m = scale10 (real (digits_val (ip @ fp))) (exponent_part r2 - int (length fp))
                in Fin (if neg then - m else m))"

section \<open>Date objects\<close>

text \<open>
  The time value of a \<open>Date\<close> is a number of milliseconds since the epoch, or \<open>NaN\<close> for
  an invalid date (\<open>None\<close> here). The calendar functions follow the ECMAScript
  definitions of \<open>Day\<close>, \<open>TimeWithinDay\<close>, \<open>DayFromYear\<close>, \<open>MonthFromTime\<close>,
  \<open>DateFromTime\<close>, \<open>MakeDay\<close>, \<open>MakeDate\<close> and \<open>TimeClip\<close>.
\<close>

type_synonym timeval = "int option"

definition msPerDay :: int where
  "msPerDay = 86400000"

definition Day :: "int \<Rightarrow> int" where
  "Day t = t div msPerDay"

definition TimeWithinDay :: "int \<Rightarrow> int" where
  "TimeWithinDay t = t mod msPerDay"

definition DaysInYear :: "int \<Rightarrow> int" where
  "DaysInYear y =
     (if y mod 4 \<noteq> 0 then 365 else if y mod 100 \<noteq> 0 then 366
      else if y mod 400 \<noteq> 0 then 365 else 366)"

definition DayFromYear :: "int \<Rightarrow> int" where
  "DayFromYear y =
     365 * (y - 1970) + (y - 1969) div 4 - (y - 1901) div 100 + (y - 1601) div 400"

text \<open>
  \<open>YearFromTime\<close>, the year whose first day is the latest one not after \<open>t\<close>, computed
  from the position of the day in its 400-year cycle (cycles and years counted from
  1 March of year 0, so that the leap day ends a year): \<open>era\<close> is the cycle, \<open>doe\<close> the day
  within the cycle, \<open>yoe\<close> the year within the cycle.
\<close>

definition yearFromYoe :: "int \<Rightarrow> int \<Rightarrow> int \<Rightarrow> int" where
  "yearFromYoe era doe yoe =
     yoe + era * 400 + (if 306 \<le> doe - (365 * yoe + yoe div 4 - yoe div 100) then 1 else 0)"

definition yearFromEra :: "int \<Rightarrow> int \<Rightarrow> int" where
  "yearFromEra era doe =
     yearFromYoe era doe ((doe - doe div 1460 + doe div 36524 - doe div 146096) div 365)"

definition yearFromDay :: "int \<Rightarrow> int" where
  "yearFromDay d = yearFromEra ((d + 719468) div 146097) ((d + 719468) mod 146097)"

definition YearFromTime :: "int \<Rightarrow> int" where
  "YearFromTime t = yearFromDay (Day t)"

definition InLeapYear :: "int \<Rightarrow> int" where
  "InLeapYear t = (if DaysInYear (YearFromTime t) = 366 then 1 else 0)"

definition DayWithinYear :: "int \<Rightarrow> int" where
  "DayWithinYear t = Day t - DayFromYear (YearFromTime t)"

text \<open>The number of days of a year before its month \<open>m\<close> (0 to 11), \<open>leap\<close> being 0 or 1.\<close>

definition daysBeforeMonth :: "int \<Rightarrow> int \<Rightarrow> int" where
  "daysBeforeMonth m leap =
     (if m \<le> 0 then 0 else if m = 1 then 31 else if m = 2 then 59 + leap
      else if m = 3 then 90 + leap else if m = 4 then 120 + leap
      else if m = 5 then 151 + leap else if m = 6 then 181 + leap
      else if m = 7 then 212 + leap else if m = 8 then 243 + leap
      else if m = 9 then 273 + leap else if m = 10 then 304 + leap
      else 334 + leap)"

definition monthFromDay :: "int \<Rightarrow> int \<Rightarrow> int" where
  "monthFromDay d leap =
     (if d < 31 then 0 else if d < 59 + leap then 1 else if d < 90 + leap then 2
      else if d < 120 + leap then 3 else if d < 151 + leap then 4
      else if d < 181 + leap then 5 else if d < 212 + leap then 6
      else if d < 243 + leap then 7 else if d < 273 + leap then 8
      else if d < 304 + leap then 9 else if d < 334 + leap then 10 else 11)"

definition MonthFromTime :: "int \<Rightarrow> int" where
  "MonthFromTime t = monthFromDay (DayWithinYear t) (InLeapYear t)"

definition DateFromTime :: "int \<Rightarrow> int" where
  "DateFromTime t = DayWithinYear t - daysBeforeMonth (MonthFromTime t) (InLeapYear t) + 1"

definition MakeDay :: "int \<Rightarrow> int \<Rightarrow> int \<Rightarrow> int" where
  "MakeDay year month date =
     DayFromYear (year + month div 12)
       + daysBeforeMonth (month mod 12) (if DaysInYear (year + month div 12) = 366 then 1 else 0)
       + date - 1"

definition MakeDate :: "int \<Rightarrow> int \<Rightarrow> int" where
  "MakeDate day time = day * msPerDay + time"

definition TimeClip :: "int \<Rightarrow> timeval" where
  "TimeClip t = (if \<bar>t\<bar> > 8640000000000000 then None else Some t)"

text \<open>
  What the platform decides: the offset of local time from UTC (\<open>LocalTZA(t, isUTC)\<close>,
  in milliseconds, which may vary with \<open>t\<close>), and the time value that \<open>new Date(s)\<close>
  gives to a string (the accepted formats are implementation-defined).
\<close>

record platform =
  LocalTZA :: "int \<Rightarrow> bool \<Rightarrow> int"
  Date_parse :: "string \<Rightarrow> timeval"

definition LocalTime :: "platform \<Rightarrow> int \<Rightarrow> int" where
  "LocalTime pf t = t + LocalTZA pf t True"

definition UTC :: "platform \<Rightarrow> int \<Rightarrow> int" where
  "UTC pf t = t - LocalTZA pf t False"

text \<open>The getters return \<open>NaN\<close> (\<open>None\<close>) on an invalid date.\<close>

definition getFullYear :: "platform \<Rightarrow> timeval \<Rightarrow> int option" where
  "getFullYear pf tv = map_option (\<lambda>t. YearFromTime (LocalTime pf t)) tv"

definition getMonth :: "platform \<Rightarrow> timeval \<Rightarrow> int option" where
  "getMonth pf tv = map_option (\<lambda>t. MonthFromTime (LocalTime pf t)) tv"

definition getDate :: "platform \<Rightarrow> timeval \<Rightarrow> int option" where
  "getDate pf tv = map_option (\<lambda>t. DateFromTime (LocalTime pf t)) tv"

text \<open>
  \<open>setMonth(month)\<close> and \<open>setDate(date)\<close> give the new time value of the object; the
  argument is \<open>None\<close> when it is \<open>NaN\<close>. Both keep the time within the day, and a day
  of the month that the target month does not have overflows into the next month.
\<close>

definition setMonth :: "platform \<Rightarrow> timeval \<Rightarrow> int option \<Rightarrow> timeval" where
  "setMonth pf tv month =
     (case tv of
        None \<Rightarrow> None
      | Some t0 \<Rightarrow>
          (case month of
             None \<Rightarrow> None
           | Some m \<Rightarrow>
               TimeClip (UTC pf
                 (MakeDate (MakeDay (YearFromTime (LocalTime pf t0)) m (DateFromTime (LocalTime pf t0)))
                    (TimeWithinDay (LocalTime pf t0))))))"

definition setDate :: "platform \<Rightarrow> timeval \<Rightarrow> int option \<Rightarrow> timeval" where
  "setDate pf tv date =
     (case tv of
        None \<Rightarrow> None
      | Some t0 \<Rightarrow>
          (case date of
             None \<Rightarrow> None
           | Some dt \<Rightarrow>
               TimeClip (UTC pf
                 (MakeDate (MakeDay (YearFromTime (LocalTime pf t0)) (MonthFromTime (LocalTime pf t0)) dt)
                    (TimeWithinDay (LocalTime pf t0))))))"

text \<open>\<open>a >= b\<close> on two dates: both are converted to their time values, and a comparison with \<open>NaN\<close> is false.\<close>

definition date_ge :: "timeval \<Rightarrow> timeval \<Rightarrow> bool" where
  "date_ge a b = (case a of None \<Rightarrow> False | Some x \<Rightarrow> (case b of None \<Rightarrow> False | Some y \<Rightarrow> y \<le> x))"

text \<open>
  A reference platform for concrete runs: local time is UTC, and a date string is
  \<open>month/day/year\<close> in digits (the form of the bundled sample data), read as local
  midnight; every other string is an invalid date.
\<close>

definition parseMDY :: "string \<Rightarrow> timeval" where
  "parseMDY s =
     (case split (CHR ''/'') s of
        [m, d, y] \<Rightarrow>
          if m \<noteq> [] \<and> d \<noteq> [] \<and> y \<noteq> [] \<and> list_all isDigit (m @ d @ y)
             \<and> 1 \<le> digits_val m \<and> digits_val m \<le> 12 \<and> 1 \<le> digits_val d \<and> digits_val d \<le> 31
          then TimeClip (MakeDate (MakeDay (int (digits_val y)) (int (digits_val m) - 1) (int (digits_val d))) 0)
          else None
      | _ \<Rightarrow> None)"

definition utcPlatform :: platform where
  "utcPlatform = \<lparr> LocalTZA = (\<lambda>t isUTC. 0), Date_parse = parseMDY \<rparr>"

section \<open>The record parser\<close>

text \<open>
  \<open>parseCSVLine\<close>: the loop over the characters of a line, with its three variables
  \<open>values\<close>, \<open>current\<close> and \<open>inQuotes\<close>. A quote that is followed by a second quote
  inside a quoted span appends one quote and skips both; any other quote flips
  \<open>inQuotes\<close>; a comma outside a quoted span pushes the trimmed field; every other
  character is appended. The last field is pushed after the loop.
\<close>

fun scanLine :: "string \<Rightarrow> string list \<Rightarrow> string \<Rightarrow> bool \<Rightarrow> string list" where
  "scanLine [] values current inQuotes = values @ [trim current]"
| "scanLine (c # rest) values current inQuotes =
     (if c = CHR 0x22 then
        (case rest of
           [] \<Rightarrow> scanLine rest values current (\<not> inQuotes)
         | nextChar # rest' \<Rightarrow>
             if inQuotes \<and> nextChar = CHR 0x22
             then scanLine rest' values (current @ [CHR 0x22]) inQuotes
             else scanLine rest values current (\<not> inQuotes))
      else if c = CHR '','' \<and> \<not> inQuotes then scanLine rest (values @ [trim current]) [] inQuotes
      else scanLine rest values (current @ [c]) inQuotes)"

definition parseCSVLine :: "string \<Rightarrow> string list" where
  "parseCSVLine line = scanLine line [] [] False"

text \<open>
  A row is an ordinary object, created as \<open>{}\<close>: its own properties are the pairs of an
  association list, in the order of their creation (no statement below depends on the
  order, which for integer-like keys is not the order in which the object enumerates
  them). \<open>getProp\<close> reads an own property, \<open>undefined\<close> (\<open>None\<close>) when there is none;
  the names the program reads (\<open>Date\<close>, \<open>Estimate\<close>, \<open>5th Percentile\<close>,
  \<open>95th Percentile\<close>) are not inherited from the prototype of an object.
\<close>

type_synonym DataRow = "(string \<times> string) list"

definition getProp :: "DataRow \<Rightarrow> string \<Rightarrow> string option" where
  "getProp row k = map_of row k"

text \<open>
  \<open>row[k] = v\<close> for a string \<open>v\<close>: it creates the own property \<open>k\<close> or replaces its
  value in place, except for \<open>k = __proto__\<close>, where the assignment reaches the setter
  inherited from the prototype, which ignores a value that is not an object: the row is
  left as it was.
\<close>

definition setProp :: "string \<Rightarrow> string \<Rightarrow> DataRow \<Rightarrow> DataRow" where
  "setProp k v row = (if k = ''__proto__'' then row else AList.update k v row)"

text \<open>Truthiness of a property: \<open>undefined\<close> and the empty string are falsy.\<close>

definition truthy_prop :: "DataRow \<Rightarrow> string \<Rightarrow> bool" where
  "truthy_prop row k = (case getProp row k of None \<Rightarrow> False | Some v \<Rightarrow> truthy_str v)"

text \<open>\<open>values[index] || ''\<close>: the empty string when the index is out of range.\<close>

definition cell :: "string list \<Rightarrow> nat \<Rightarrow> string" where
  "cell values index = (if index < length values \<and> truthy_str (values ! index) then values ! index else [])"

text \<open>The \<open>headers.forEach\<close> that fills a row.\<close>

fun assignCells :: "string list \<Rightarrow> nat \<Rightarrow> string list \<Rightarrow> DataRow \<Rightarrow> DataRow" where
  "assignCells [] index values row = row"
| "assignCells (header # headers) index values row =
     assignCells headers (index + 1) values (setProp header (cell values index) row)"

text \<open>The loop of \<open>parseCSV\<close> over the lines after the header, pushing onto \<open>data\<close>.\<close>

fun parseLines :: "string list \<Rightarrow> string list \<Rightarrow> DataRow list \<Rightarrow> DataRow list" where
  "parseLines headers [] data = data"
| "parseLines headers (l # ls) data =
     (let line = trim l
      in if truthy_str line then
           (let values = parseCSVLine line;
                row = assignCells headers 0 values []
            in if truthy_prop row ''Date'' \<and> truthy_prop row ''Estimate''
               then parseLines headers ls (data @ [row])
               else parseLines headers ls data)
         else parseLines headers ls data)"

datatype error = ParseError | TypeError

definition nonBlankLines :: "string \<Rightarrow> string list" where
  "nonBlankLines csvText = filter (\<lambda>line. truthy_str (trim line)) (split (CHR 0x0A) csvText)"

definition headerCells :: "string \<Rightarrow> string list" where
  "headerCells line = map (\<lambda>header. filter (\<lambda>c. c \<noteq> CHR 0x22) (trim header)) (split (CHR '','') line)"

text \<open>\<open>parseCSV\<close>: the thrown \<open>Error\<close> is the value \<open>Inl ParseError\<close>.\<close>

definition parseCSV :: "string \<Rightarrow> error + DataRow list" where
  "parseCSV csvText =
     (let lines = nonBlankLines csvText
      in if length lines < 2 then Inl ParseError
         else (case lines of
                 [] \<Rightarrow> Inl ParseError
               | first # others \<Rightarrow> Inr (parseLines (headerCells first) others [])))"

section \<open>The series normaliser and the scale\<close>

text \<open>
  \<open>Date\<close> objects are mutable and shared by reference, so they live in a store: an
  address is a natural number, \<open>cells\<close> gives the time value held at an address and
  \<open>fresh\<close> is the next unused address. \<open>new Date(...)\<close> allocates.
\<close>

record store =
  cells :: "nat \<Rightarrow> timeval"
  fresh :: nat

definition emptyStore :: store where
  "emptyStore = \<lparr> cells = (\<lambda>a. None), fresh = 0 \<rparr>"

definition newDate :: "timeval \<Rightarrow> store \<Rightarrow> nat \<times> store" where
  "newDate tv h = (fresh h, h\<lparr> cells := (cells h)(fresh h := tv), fresh := fresh h + 1 \<rparr>)"

definition writeDate :: "nat \<Rightarrow> timeval \<Rightarrow> store \<Rightarrow> store" where
  "writeDate a tv h = h\<lparr> cells := (cells h)(a := tv) \<rparr>"

text \<open>A processed item holds the address of its \<open>Date\<close> and its three numbers.\<close>

record ProcessedDataItem =
  date :: nat
  estimate :: jsnum
  fifthPercentile :: jsnum
  ninetyFifthPercentile :: jsnum

text \<open>The reader's fields that the pipeline reads and writes.\<close>

record EINDataReader =
  maxSteps :: jsnum
  stepSize :: jsnum
  estimateTitleText :: string
  fifthPercentileTitleText :: string
  ninetyFifthPercentileTitleText :: string

definition constructor :: EINDataReader where
  "constructor =
     \<lparr> maxSteps = Fin 0, stepSize = Fin 1, estimateTitleText = ''Estimate'',
       fifthPercentileTitleText = ''5th Percentile'',
       ninetyFifthPercentileTitleText = ''95th Percentile'' \<rparr>"

text \<open>\<open>getSampleData\<close>, the built-in rows.\<close>

definition sampleRow :: "string \<Rightarrow> string \<Rightarrow> string \<Rightarrow> string \<Rightarrow> DataRow" where
  "sampleRow d e lo hi =
     [(''Date'', d), (''Estimate'', e), (''5th Percentile'', lo), (''95th Percentile'', hi)]"

definition getSampleData :: "DataRow list" where
  "getSampleData =
     [sampleRow ''1/15/2024'' ''45'' ''28'' ''65'', sampleRow ''2/15/2024'' ''48'' ''32'' ''68'',
      sampleRow ''3/15/2024'' ''42'' ''25'' ''62'', sampleRow ''4/15/2024'' ''38'' ''22'' ''58'',
      sampleRow ''5/15/2024'' ''35'' ''20'' ''55'', sampleRow ''6/15/2024'' ''32'' ''18'' ''52'',
      sampleRow ''7/15/2024'' ''28'' ''15'' ''48'', sampleRow ''8/15/2024'' ''25'' ''12'' ''42'',
      sampleRow ''9/15/2024'' ''22'' ''10'' ''38'', sampleRow ''10/15/2024'' ''35'' ''20'' ''55'',
      sampleRow ''11/15/2024'' ''68'' ''45'' ''85'', sampleRow ''12/15/2024'' ''52'' ''38'' ''74'',
      sampleRow ''1/15/2025'' ''42'' ''28'' ''62'', sampleRow ''2/15/2025'' ''38'' ''25'' ''58'',
      sampleRow ''3/15/2025'' ''40'' ''26'' ''60'']"

text \<open>The string that \<open>parseFloat\<close> and a template literal see for a property or a number.\<close>

definition propString :: "string option \<Rightarrow> string" where
  "propString v = (case v of None \<Rightarrow> ''undefined'' | Some s \<Rightarrow> s)"

definition numString :: "int option \<Rightarrow> string" where
  "numString v = (case v of None \<Rightarrow> ''NaN'' | Some i \<Rightarrow> toString i)"

text \<open>\<open>parseFloat(row[k]) || 0\<close>.\<close>

definition numberField :: "DataRow \<Rightarrow> string \<Rightarrow> jsnum" where
  "numberField row k = or_zero (parseFloat (propString (getProp row k)))"

text \<open>
  The \<open>map\<close> callback over the rows, in order. It allocates the row's \<open>Date\<close>, and
  when that date is at or after the one \<open>minDate\<close> refers to, \<open>minDate\<close> is made to
  refer to the same object (an assignment of the reference, not a copy).
\<close>

fun mapRows :: "platform \<Rightarrow> DataRow list \<Rightarrow> store \<Rightarrow> nat \<Rightarrow> ProcessedDataItem list \<times> store \<times> nat" where
  "mapRows pf [] h minDate = ([], h, minDate)"
| "mapRows pf (row # rows) h minDate =
     (let (d, h1) = newDate (case getProp row ''Date'' of None \<Rightarrow> None | Some s \<Rightarrow> Date_parse pf s) h;
          minDate1 = (if date_ge (cells h1 d) (cells h1 minDate) then d else minDate);
          item = \<lparr> date = d, estimate = numberField row ''Estimate'',
                   fifthPercentile = numberField row ''5th Percentile'',
                   ninetyFifthPercentile = numberField row ''95th Percentile'' \<rparr>;
          (items, h2, minDate2) = mapRows pf rows h1 minDate1
      in (item # items, h2, minDate2))"

text \<open>The time value of an item's date, read through the store.\<close>

definition itemTime :: "store \<Rightarrow> ProcessedDataItem \<Rightarrow> timeval" where
  "itemTime h item = cells h (date item)"

text \<open>
  \<open>getTime()\<close> as the sort's comparator uses it. The comparator only runs on items
  that passed the filter, whose dates are valid; the value for an invalid date is not used.
\<close>

definition getTime :: "store \<Rightarrow> ProcessedDataItem \<Rightarrow> int" where
  "getTime h item = (case itemTime h item of None \<Rightarrow> 0 | Some t \<Rightarrow> t)"

text \<open>The key of a calendar day: day of the month, month and year in local time, joined by \<open>-\<close>.\<close>

definition dayKey :: "platform \<Rightarrow> timeval \<Rightarrow> string" where
  "dayKey pf tv =
     numString (getDate pf tv) @ ''-'' @ numString (getMonth pf tv) @ ''-'' @ numString (getFullYear pf tv)"

text \<open>The \<open>forEach\<close> that keeps the first item of every day key.\<close>

fun uniqueLoop :: "platform \<Rightarrow> store \<Rightarrow> ProcessedDataItem list \<Rightarrow> string set \<Rightarrow> ProcessedDataItem list \<Rightarrow> ProcessedDataItem list" where
  "uniqueLoop pf h [] seenDate uniqueData = uniqueData"
| "uniqueLoop pf h (item # items) seenDate uniqueData =
     (let k = dayKey pf (itemTime h item)
      in if k \<notin> seenDate then uniqueLoop pf h items (insert k seenDate) (uniqueData @ [item])
         else uniqueLoop pf h items seenDate uniqueData)"

definition monthNames :: "string list" where
  "monthNames = [''JAN'', ''FEB'', ''MAR'', ''APR'', ''MAY'', ''JUN'',
                 ''JUL'', ''AUG'', ''SEP'', ''OCT'', ''NOV'', ''DEC'']"

text \<open>\<open>monthNames[m]\<close>: \<open>undefined\<close> (\<open>None\<close>) when \<open>m\<close> is \<open>NaN\<close> or out of range.\<close>

definition monthName :: "int option \<Rightarrow> string option" where
  "monthName m =
     (case m of None \<Rightarrow> None
      | Some i \<Rightarrow> if 0 \<le> i \<and> i < int (length monthNames) then Some (monthNames ! nat i) else None)"

definition labelKey :: "platform \<Rightarrow> timeval \<Rightarrow> string" where
  "labelKey pf tv = propString (monthName (getMonth pf tv)) @ ''-'' @ numString (getFullYear pf tv)"

text \<open>
  The state of the second \<open>forEach\<close>: the labels (an entry is \<open>None\<close> when
  \<open>undefined\<close> was pushed), the set of label keys seen, the three data arrays and the
  reader's running \<open>maxSteps\<close>.
\<close>

record loopState =
  labels_acc :: "string option list"
  seenLabels :: "string set"
  estimateData :: "jsnum list"
  fifthPercentileData :: "jsnum list"
  ninetyFifthPercentileData :: "jsnum list"
  maxSteps_acc :: jsnum

definition labelStep :: "platform \<Rightarrow> store \<Rightarrow> loopState \<Rightarrow> ProcessedDataItem \<Rightarrow> loopState" where
  "labelStep pf h st item =
     (let currentMonth = monthName (getMonth pf (itemTime h item));
          labelCheckWithYear = labelKey pf (itemTime h item)
      in \<lparr> labels_acc =
             labels_acc st @ [if labelCheckWithYear \<notin> seenLabels st then currentMonth else Some []],
           seenLabels =
             (if labelCheckWithYear \<notin> seenLabels st then insert labelCheckWithYear (seenLabels st)
              else seenLabels st),
           estimateData = estimateData st @ [estimate item],
           fifthPercentileData = fifthPercentileData st @ [fifthPercentile item],
           ninetyFifthPercentileData = ninetyFifthPercentileData st @ [ninetyFifthPercentile item],
           maxSteps_acc =
             Math_max [maxSteps_acc st, estimate item, fifthPercentile item, ninetyFifthPercentile item] \<rparr>)"

definition labelLoop :: "platform \<Rightarrow> store \<Rightarrow> ProcessedDataItem list \<Rightarrow> loopState \<Rightarrow> loopState" where
  "labelLoop pf h items st = foldl (labelStep pf h) st items"

text \<open>The result: labels, the three datasets in their order, and the items of the series.\<close>

record ChartDataset =
  label :: string
  data :: "jsnum list"

record ChartData =
  labels :: "string option list"
  datasets :: "ChartDataset list"
  rawData :: "ProcessedDataItem list"

text \<open>
  The statements of \<open>processDataForChart\<close>, in their order. First \<open>minDate\<close> is a new
  \<open>Date(0)\<close> and the rows with a non-empty \<open>Date\<close> and \<open>Estimate\<close> are mapped to
  \<open>processedData\<close>. The dates of one call are allocated in a store of its own: nothing
  of an earlier call is reachable from them.
\<close>

definition buildProcessedData :: "platform \<Rightarrow> DataRow list \<Rightarrow> ProcessedDataItem list \<times> store \<times> nat" where
  "buildProcessedData pf rawRows =
     (let (minDate0, h0) = newDate (Some 0) emptyStore
      in mapRows pf (filter (\<lambda>row. truthy_prop row ''Date'' \<and> truthy_prop row ''Estimate'') rawRows)
           h0 minDate0)"

text \<open>
  Then \<open>minDate.setMonth(minDate.getMonth() - 2)\<close> and \<open>minDate.setDate(1)\<close>: both
  write to the object that \<open>minDate\<close> refers to.
\<close>

definition moveToWindowFloor :: "platform \<Rightarrow> nat \<Rightarrow> store \<Rightarrow> store" where
  "moveToWindowFloor pf minDate h1 =
     (let h2 = writeDate minDate
                 (setMonth pf (cells h1 minDate) (map_option (\<lambda>m. m - 2) (getMonth pf (cells h1 minDate)))) h1
      in writeDate minDate (setDate pf (cells h2 minDate) (Some 1)) h2)"

text \<open>
  The filter on valid dates at or after \<open>minDate\<close>, and the sort by time (the sort of an
  array is stable).
\<close>

definition dateFilteredMinProcessedData :: "store \<Rightarrow> nat \<Rightarrow> ProcessedDataItem list \<Rightarrow> ProcessedDataItem list" where
  "dateFilteredMinProcessedData h minDate processedData =
     sort_key (getTime h)
       (filter (\<lambda>item. itemTime h item \<noteq> None \<and> date_ge (itemTime h item) (cells h minDate))
          processedData)"

text \<open>The two assignments after the loop: the step from the running maximum, then the axis maximum.\<close>

definition newStepSize :: "jsnum \<Rightarrow> jsnum" where
  "newStepSize m = Math_ceil (js_add (js_div (Math_ceil m) (Fin 5)) (Fin 1))"

definition newMaxSteps :: "jsnum \<Rightarrow> jsnum \<Rightarrow> jsnum" where
  "newMaxSteps m step = js_mul (Math_ceil (js_div m step)) step"

text \<open>
  \<open>processDataForChart\<close> returns the chart data, the store holding the dates of its
  items, and the reader with its updated \<open>maxSteps\<close> and \<open>stepSize\<close>.
\<close>

definition processDataForChart ::
  "platform \<Rightarrow> EINDataReader \<Rightarrow> DataRow list \<Rightarrow> ChartData \<times> store \<times> EINDataReader" where
  "processDataForChart pf this rawRows =
     (let (processedData, h1, minDate) = buildProcessedData pf rawRows;
          h = moveToWindowFloor pf minDate h1;
          uniqueData = uniqueLoop pf h (dateFilteredMinProcessedData h minDate processedData) {} [];
          st = labelLoop pf h uniqueData
                 \<lparr> labels_acc = [], seenLabels = {}, estimateData = [], fifthPercentileData = [],
                   ninetyFifthPercentileData = [], maxSteps_acc = maxSteps this \<rparr>;
          stepSize1 = newStepSize (maxSteps_acc st);
          maxSteps1 = newMaxSteps (maxSteps_acc st) stepSize1;
          chartData =
            \<lparr> labels = labels_acc st,
              datasets =
                [\<lparr> label = fifthPercentileTitleText this, data = fifthPercentileData st \<rparr>,
                 \<lparr> label = ninetyFifthPercentileTitleText this, data = ninetyFifthPercentileData st \<rparr>,
                 \<lparr> label = estimateTitleText this, data = estimateData st \<rparr>],
              rawData = uniqueData \<rparr>
      in (chartData, h, this\<lparr> maxSteps := maxSteps1, stepSize := stepSize1 \<rparr>))"

section \<open>The tooltip positioner\<close>

text \<open>
  An active element carries the index of its dataset (possibly \<open>undefined\<close>) and a point
  whose coordinates may be \<open>undefined\<close>. \<open>undefined\<close> in arithmetic is \<open>NaN\<close>.
\<close>

record PointElement =
  xpos :: "jsnum option"
  ypos :: "jsnum option"

record ActiveElement =
  datasetIndex :: "nat option"
  element :: PointElement

definition toNumber :: "jsnum option \<Rightarrow> jsnum" where
  "toNumber v = (case v of None \<Rightarrow> NaN | Some n \<Rightarrow> n)"

definition xOffset :: jsnum where
  "xOffset = Fin 0"

definition yOffset :: jsnum where
  "yOffset = Fin (- 10)"

text \<open>
  \<open>this.chart.data.datasets[i].label\<close>: reading \<open>label\<close> of a dataset that does not
  exist throws a \<open>TypeError\<close>.
\<close>

definition datasetLabel :: "ChartDataset list \<Rightarrow> nat \<Rightarrow> error + string" where
  "datasetLabel ds i = (if i < length ds then Inr (label (ds ! i)) else Inl TypeError)"

text \<open>\<open>elements.find\<close> with the Estimate test: it stops at the first match.\<close>

fun findEstimate :: "ChartDataset list \<Rightarrow> string \<Rightarrow> ActiveElement list \<Rightarrow> error + ActiveElement option" where
  "findEstimate ds title [] = Inr None"
| "findEstimate ds title (el # els) =
     (case datasetIndex el of
        None \<Rightarrow> findEstimate ds title els
      | Some i \<Rightarrow>
          (case datasetLabel ds i of
             Inl e \<Rightarrow> Inl e
           | Inr l \<Rightarrow> if l = title then Inr (Some el) else findEstimate ds title els))"

text \<open>\<open>elements.filter\<close> with the percentile test, over all elements.\<close>

fun filterPercentile :: "ChartDataset list \<Rightarrow> string \<Rightarrow> string \<Rightarrow> ActiveElement list \<Rightarrow> error + ActiveElement list" where
  "filterPercentile ds t5 t95 [] = Inr []"
| "filterPercentile ds t5 t95 (el # els) =
     (case datasetIndex el of
        None \<Rightarrow> filterPercentile ds t5 t95 els
      | Some i \<Rightarrow>
          (case datasetLabel ds i of
             Inl e \<Rightarrow> Inl e
           | Inr l \<Rightarrow>
               (case filterPercentile ds t5 t95 els of
                  Inl e \<Rightarrow> Inl e
                | Inr ps \<Rightarrow> Inr (if l = t5 \<or> l = t95 then el # ps else ps))))"

text \<open>The two \<open>reduce\<close> calls of the fallback: the sums of the coordinates, from \<open>0\<close>.\<close>

definition sumX :: "ActiveElement list \<Rightarrow> jsnum" where
  "sumX elements = foldl (\<lambda>sum el. js_add sum (toNumber (xpos (element el)))) (Fin 0) elements"

definition sumY :: "ActiveElement list \<Rightarrow> jsnum" where
  "sumY elements = foldl (\<lambda>sum el. js_add sum (toNumber (ypos (element el)))) (Fin 0) elements"

text \<open>
  \<open>einCustomPositioner(elements, eventPosition)\<close>, for the reader whose titles it
  captured and the datasets of the chart it is called on. The result is the point
  \<open>(x, y)\<close>.
\<close>

definition einCustomPositioner ::
  "EINDataReader \<Rightarrow> ChartDataset list \<Rightarrow> ActiveElement list \<Rightarrow> jsnum \<times> jsnum \<Rightarrow> error + jsnum \<times> jsnum" where
  "einCustomPositioner this ds elements eventPosition =
     (if length elements = 0 then
        Inr (js_add (fst eventPosition) xOffset, js_add (snd eventPosition) yOffset)
      else
        (case findEstimate ds (estimateTitleText this) elements of
           Inl e \<Rightarrow> Inl e
         | Inr estimateElement \<Rightarrow>
             (case (case estimateElement of
                      None \<Rightarrow> None
                    | Some el \<Rightarrow> if xpos (element el) \<noteq> None then Some el else None) of
                Some el \<Rightarrow>
                  Inr (js_add (toNumber (xpos (element el))) xOffset,
                       js_add (toNumber (ypos (element el))) yOffset)
              | None \<Rightarrow>
                  (case filterPercentile ds (fifthPercentileTitleText this)
                          (ninetyFifthPercentileTitleText this) elements of
                     Inl e \<Rightarrow> Inl e
                   | Inr percentileElements \<Rightarrow>
                       if 2 \<le> length percentileElements then
                         (let y1 = toNumber (ypos (element (percentileElements ! 0)));
                              y2 = toNumber (ypos (element (percentileElements ! 1)));
                              x = toNumber (xpos (element (percentileElements ! 0)))
                          in Inr (js_add x xOffset, js_add (js_div (js_add y1 y2) (Fin 2)) yOffset))
                       else if length percentileElements = 1 then
                         Inr (js_add (toNumber (xpos (element (percentileElements ! 0)))) xOffset,
                              js_add (toNumber (ypos (element (percentileElements ! 0)))) yOffset)
                       else
                         (let x = js_div (sumX elements) (Fin (real (length elements)));
                              y = js_div (sumY elements) (Fin (real (length elements)))
                          in Inr (js_add x xOffset, js_add y yOffset))))))"

section \<open>Notions used to state the properties\<close>

text \<open>
  Writing a field the way CSV quotes it: every quote doubled, the whole field enclosed in
  quotes; and joining fields with commas.
\<close>

definition escapeQuotes :: "string \<Rightarrow> string" where
  "escapeQuotes s = concat (map (\<lambda>c. if c = CHR 0x22 then [c, c] else [c]) s)"

definition quoteField :: "string \<Rightarrow> string" where
  "quoteField s = CHR 0x22 # escapeQuotes s @ [CHR 0x22]"

fun joinComma :: "string list \<Rightarrow> string" where
  "joinComma [] = []"
| "joinComma [f] = f"
| "joinComma (f # g # fs) = f @ CHR '','' # joinComma (g # fs)"

text \<open>
  The row that the loop of \<open>parseCSV\<close> builds from one data line, and its test for
  keeping the row.
\<close>

definition rowOf :: "string list \<Rightarrow> string \<Rightarrow> DataRow" where
  "rowOf headers l = assignCells headers 0 (parseCSVLine (trim l)) []"

definition hasDateAndEstimate :: "DataRow \<Rightarrow> bool" where
  "hasDateAndEstimate row = (truthy_prop row ''Date'' \<and> truthy_prop row ''Estimate'')"


definition csvExample :: string where
  \<open>csvExample = ''Date,Estimate," x "'' @ [CHR 0x0A] @ ''1/15/2024,45,7''\<close>

text \<open>
  The shape of a printed number or name inside a key: a non-empty body without \<open>-\<close>,
  possibly after one leading \<open>-\<close>.
\<close>

definition tokenlike :: "string \<Rightarrow> bool" where
  "tokenlike w = (\<exists>body. body \<noteq> [] \<and> CHR ''-'' \<notin> set body \<and> (w = body \<or> w = CHR ''-'' # body))"

text \<open>
  The calendar day of an item in local time, and the items of a list that are the first
  of their calendar day.
\<close>

definition calendarDay :: "platform \<Rightarrow> store \<Rightarrow> ProcessedDataItem \<Rightarrow> int option \<times> int option \<times> int option" where
  "calendarDay pf h item =
     (getFullYear pf (itemTime h item), getMonth pf (itemTime h item), getDate pf (itemTime h item))"

definition firstOfEachDay :: "platform \<Rightarrow> store \<Rightarrow> ProcessedDataItem list \<Rightarrow> ProcessedDataItem list" where
  "firstOfEachDay pf h s =
     map (nth s)
       (filter (\<lambda>i. list_all (\<lambda>j. calendarDay pf h (s ! j) \<noteq> calendarDay pf h (s ! i)) [0..<i])
          [0..<length s])"

text \<open>The three components of the result of \<open>processDataForChart\<close>.\<close>

definition chartOf :: "platform \<Rightarrow> EINDataReader \<Rightarrow> DataRow list \<Rightarrow> ChartData" where
  "chartOf pf this rows = fst (processDataForChart pf this rows)"

definition storeOf :: "platform \<Rightarrow> EINDataReader \<Rightarrow> DataRow list \<Rightarrow> store" where
  "storeOf pf this rows = fst (snd (processDataForChart pf this rows))"

definition readerOf :: "platform \<Rightarrow> EINDataReader \<Rightarrow> DataRow list \<Rightarrow> EINDataReader" where
  "readerOf pf this rows = snd (snd (processDataForChart pf this rows))"

text \<open>The times of the series that a call returns, on the reference platform and a new reader.\<close>

definition seriesTimes :: "DataRow list \<Rightarrow> int list" where
  "seriesTimes rows =
     map (getTime (storeOf utcPlatform constructor rows)) (rawData (chartOf utcPlatform constructor rows))"


definition seriesRows :: "DataRow list" where
  "seriesRows =
     [sampleRow ''2/15/2024'' ''48'' ''32'' ''68'', sampleRow ''1/15/2024'' ''45'' ''28'' ''65'',
      sampleRow ''1/15/2024'' ''99'' ''1'' ''100'', sampleRow ''1/16/2024'' ''50'' ''30'' ''70'']"

text \<open>
  The month and year of an item in local time, and the labels the claim describes: the
  month name at the first item of each (month, year) pair, the empty string elsewhere.
\<close>

definition monthYear :: "platform \<Rightarrow> store \<Rightarrow> ProcessedDataItem \<Rightarrow> int option \<times> int option" where
  "monthYear pf h item = (getMonth pf (itemTime h item), getFullYear pf (itemTime h item))"

definition expectedLabels :: "platform \<Rightarrow> store \<Rightarrow> ProcessedDataItem list \<Rightarrow> string option list" where
  "expectedLabels pf h u =
     map (\<lambda>i. if list_ex (\<lambda>j. monthYear pf h (u ! j) = monthYear pf h (u ! i)) [0..<i] then Some []
              else monthName (getMonth pf (itemTime h (u ! i))))
       [0..<length u]"

text \<open>The state in which the second \<open>forEach\<close> starts, for a reader whose \<open>maxSteps\<close> is \<open>m\<close>.\<close>

definition initialLoopState :: "jsnum \<Rightarrow> loopState" where
  "initialLoopState m =
     \<lparr> labels_acc = [], seenLabels = {}, estimateData = [], fifthPercentileData = [],
       ninetyFifthPercentileData = [], maxSteps_acc = m \<rparr>"








text \<open>
  The two rows of the specification's end-to-end example (the first two sample rows), and
  a row whose three numbers are negative.
\<close>

definition exampleRows :: "DataRow list" where
  "exampleRows = [sampleRow ''1/15/2024'' ''45'' ''28'' ''65'', sampleRow ''2/15/2024'' ''48'' ''32'' ''68'']"


text \<open>
  The tooltip anchor as the specification words it. The series of an active element is
  the label of the dataset it belongs to, when it has one.
\<close>

definition seriesOf :: "ChartDataset list \<Rightarrow> ActiveElement \<Rightarrow> string option" where
  "seriesOf ds el =
     (case datasetIndex el of
        None \<Rightarrow> None
      | Some i \<Rightarrow> if i < length ds then Some (label (ds ! i)) else None)"

text \<open>An element belongs to the series of a given title.\<close>

definition inSeries :: "ChartDataset list \<Rightarrow> string \<Rightarrow> ActiveElement \<Rightarrow> bool" where
  "inSeries ds title el = (seriesOf ds el = Some title)"

text \<open>An element has resolved pixel coordinates: neither is \<open>undefined\<close>.\<close>

definition resolved :: "ActiveElement \<Rightarrow> bool" where
  "resolved el = (xpos (element el) \<noteq> None \<and> ypos (element el) \<noteq> None)"

definition position :: "ActiveElement \<Rightarrow> jsnum \<times> jsnum" where
  "position el = (toNumber (xpos (element el)), toNumber (ypos (element el)))"

text \<open>The fixed bias \<open>(0, -10)\<close> added to a point.\<close>

definition withBias :: "jsnum \<times> jsnum \<Rightarrow> jsnum \<times> jsnum" where
  "withBias p = (js_add (fst p) (Fin 0), js_add (snd p) (Fin (- 10)))"

text \<open>The arithmetic mean of the x and of the y coordinates of all elements.\<close>

definition centroid :: "ActiveElement list \<Rightarrow> jsnum \<times> jsnum" where
  "centroid elements =
     (js_div (sumX elements) (Fin (real (length elements))),
      js_div (sumY elements) (Fin (real (length elements))))"

text \<open>
  The priority rule, first match first: no element, the fallback cursor; an element of
  the Estimate series with resolved coordinates, its position; elements of both
  percentile series, the x of the first of them and the midpoint of the two y; an element
  of one percentile series only, its position; otherwise the centroid. The bias is added
  to every point.
\<close>

definition selectAnchor ::
  "EINDataReader \<Rightarrow> ChartDataset list \<Rightarrow> ActiveElement list \<Rightarrow> jsnum \<times> jsnum \<Rightarrow> jsnum \<times> jsnum" where
  "selectAnchor this ds elements fallbackCursor =
     withBias
       (if elements = [] then fallbackCursor
        else
          (case find (\<lambda>el. inSeries ds (estimateTitleText this) el \<and> resolved el) elements of
             Some el \<Rightarrow> position el
           | None \<Rightarrow>
               (case find (inSeries ds (fifthPercentileTitleText this)) elements of
                  Some lo \<Rightarrow>
                    (case find (inSeries ds (ninetyFifthPercentileTitleText this)) elements of
                       Some hi \<Rightarrow>
                         (case find (\<lambda>el. inSeries ds (fifthPercentileTitleText this) el
                                       \<or> inSeries ds (ninetyFifthPercentileTitleText this) el) elements of
                            Some first \<Rightarrow>
                              (fst (position first),
                               js_div (js_add (snd (position lo)) (snd (position hi))) (Fin 2))
                          | None \<Rightarrow> centroid elements)
                     | None \<Rightarrow> position lo)
                | None \<Rightarrow>
                    (case find (inSeries ds (ninetyFifthPercentileTitleText this)) elements of
                       Some hi \<Rightarrow> position hi
                     | None \<Rightarrow> centroid elements))))"

text \<open>
  The active elements of a hover in the mode \<open>index\<close> that the chart's options select:
  every dataset index names a dataset of the chart, an element has both coordinates or
  neither, each of the three named series has at most one element, and the two
  percentile titles differ.
\<close>

definition wellFormedElements :: "EINDataReader \<Rightarrow> ChartDataset list \<Rightarrow> ActiveElement list \<Rightarrow> bool" where
  "wellFormedElements this ds elements =
     (list_all (\<lambda>el. case datasetIndex el of None \<Rightarrow> True | Some i \<Rightarrow> i < length ds) elements
      \<and> list_all (\<lambda>el. (xpos (element el) = None) = (ypos (element el) = None)) elements
      \<and> length (filter (inSeries ds (estimateTitleText this)) elements) \<le> 1
      \<and> length (filter (inSeries ds (fifthPercentileTitleText this)) elements) \<le> 1
      \<and> length (filter (inSeries ds (ninetyFifthPercentileTitleText this)) elements) \<le> 1
      \<and> fifthPercentileTitleText this \<noteq> ninetyFifthPercentileTitleText this)"

text \<open>Elements and datasets of the examples: the datasets in the order of the chart.\<close>

definition pointAt :: "nat \<Rightarrow> real \<Rightarrow> real \<Rightarrow> ActiveElement" where
  "pointAt i a b = \<lparr> datasetIndex = Some i, element = \<lparr> xpos = Some (Fin a), ypos = Some (Fin b) \<rparr> \<rparr>"

definition unresolvedAt :: "nat \<Rightarrow> ActiveElement" where
  "unresolvedAt i = \<lparr> datasetIndex = Some i, element = \<lparr> xpos = None, ypos = None \<rparr> \<rparr>"

definition exampleDatasets :: "ChartDataset list" where
  "exampleDatasets =
     [\<lparr> label = ''5th Percentile'', data = [] \<rparr>, \<lparr> label = ''95th Percentile'', data = [] \<rparr>,
      \<lparr> label = ''Estimate'', data = [] \<rparr>]"


section \<open>The quote-aware scanner\<close>

lemma scanLine_escaped:
  "scanLine (escapeQuotes s @ rest) values current True = scanLine rest values (current @ s) True"
proof (induction s arbitrary: current)
  case Nil
  then show ?case by (simp add: escapeQuotes_def)
next
  case (Cons c s)
  have step: "scanLine (escapeQuotes (c # s) @ rest) values current True
      = scanLine (escapeQuotes s @ rest) values (current @ [c]) True"
    by (simp add: escapeQuotes_def)
  show ?case unfolding step Cons.IH by simp
qed

lemma scanLine_quoted_end:
  "scanLine (quoteField s) values current False = values @ [trim (current @ s)]"
proof -
  have "scanLine (quoteField s) values current False
      = scanLine (escapeQuotes s @ [CHR 0x22]) values current True"
    unfolding quoteField_def by (cases "escapeQuotes s") simp_all
  also have "\<dots> = scanLine [CHR 0x22] values (current @ s) True"
    by (rule scanLine_escaped)
  also have "\<dots> = values @ [trim (current @ s)]" by simp
  finally show ?thesis .
qed

lemma scanLine_quoted_comma:
  "scanLine (quoteField s @ CHR '','' # rest) values current False
     = scanLine rest (values @ [trim (current @ s)]) [] False"
proof -
  have "scanLine (quoteField s @ CHR '','' # rest) values current False
      = scanLine (escapeQuotes s @ CHR 0x22 # CHR '','' # rest) values current True"
    unfolding quoteField_def by (cases "escapeQuotes s") simp_all
  also have "\<dots> = scanLine (CHR 0x22 # CHR '','' # rest) values (current @ s) True"
    by (rule scanLine_escaped)
  also have "\<dots> = scanLine rest (values @ [trim (current @ s)]) [] False" by simp
  finally show ?thesis .
qed

lemma scanLine_joined:
  "scanLine (joinComma (map quoteField (f # fs))) vs [] False = vs @ map trim (f # fs)"
proof (induction fs arbitrary: f vs)
  case Nil
  show ?case using scanLine_quoted_end [of f vs "[]"] by simp
next
  case (Cons g fs)
  show ?case using scanLine_quoted_comma [of f "joinComma (map quoteField (g # fs))" vs "[]"] Cons.IH [of g "vs @ [trim f]"]
    by simp
qed

lemma five_thousand: \<open>parseCSVLine ''"5,000"'' = [''5,000'']\<close>
  by (simp add: parseCSVLine_def trim_def trimStart_def trimEnd_def isWhiteSpace_def)

text \<open>
  C6. Inside a quoted span a comma is appended to the current field and a doubled quote
  appends one quote; a quote that is not the first of such a pair flips the in-quotes
  state; outside a quoted span a comma ends the field. Hence a line of quoted fields
  parses to exactly those fields (trimmed), whatever commas and quotes they contain, and
  the quoted field \<open>"5,000"\<close> is the single token \<open>5,000\<close>.
\<close>

theorem parseCSVLine_quote_aware:
  \<open>scanLine (CHR '','' # rest) values current True = scanLine rest values (current @ '','') True
   \<and> scanLine (CHR 0x22 # CHR 0x22 # rest) values current True
       = scanLine rest values (current @ [CHR 0x22]) True
   \<and> (\<not> (inQuotes \<and> rest \<noteq> [] \<and> hd rest = CHR 0x22) \<longrightarrow>
        scanLine (CHR 0x22 # rest) values current inQuotes = scanLine rest values current (\<not> inQuotes))
   \<and> scanLine (CHR '','' # rest) values current False = scanLine rest (values @ [trim current]) [] False
   \<and> (flds \<noteq> [] \<longrightarrow> parseCSVLine (joinComma (map quoteField flds)) = map trim flds)
   \<and> parseCSVLine ''"5,000"'' = [''5,000'']\<close>
proof -
  have toggle: "\<not> (inQuotes \<and> rest \<noteq> [] \<and> hd rest = CHR 0x22) \<longrightarrow>
        scanLine (CHR 0x22 # rest) values current inQuotes = scanLine rest values current (\<not> inQuotes)"
  proof (cases rest)
    case Nil
    then show ?thesis by simp
  next
    case (Cons d rest')
    show ?thesis unfolding Cons by (subst scanLine.simps(2)) (simp del: scanLine.simps)
  qed
  have joined: "flds \<noteq> [] \<longrightarrow> parseCSVLine (joinComma (map quoteField flds)) = map trim flds"
    using scanLine_joined [of "hd flds" "tl flds" "[]"] by (cases flds) (simp_all add: parseCSVLine_def)
  show ?thesis using toggle joined five_thousand by simp
qed

theorem parseCSVLine_quote_aware_witness:
  \<open>parseCSVLine ''"5,000","say ""hi"", ok "'' = [''5,000'', ''say "hi", ok'']
   \<and> scanLine ''"x'' [] [] False = scanLine ''x'' [] [] True\<close>
proof -
  have a: \<open>joinComma (map quoteField [''5,000'', ''say "hi", ok '']) = ''"5,000","say ""hi"", ok "''\<close>
    by (simp add: quoteField_def escapeQuotes_def)
  have b: \<open>map trim [''5,000'', ''say "hi", ok ''] = [''5,000'', ''say "hi", ok'']\<close>
    by (simp add: trim_def trimStart_def trimEnd_def isWhiteSpace_def)
  show ?thesis
    using parseCSVLine_quote_aware [of "''x''" "[]" "[]" False \<open>[''5,000'', ''say "hi", ok '']\<close>]
    unfolding a b by simp
qed

section \<open>The record parser: errors, rows and trimming\<close>

lemma trimEnd_prefix: "\<exists>ys. t = trimEnd t @ ys"
proof -
  have "t = rev (takeWhile isWhiteSpace (rev t) @ dropWhile isWhiteSpace (rev t))"
    by (simp only: takeWhile_dropWhile_id rev_rev_ident)
  also have "\<dots> = rev (dropWhile isWhiteSpace (rev t)) @ rev (takeWhile isWhiteSpace (rev t))"
    by (rule rev_append)
  finally have "t = trimEnd t @ rev (takeWhile isWhiteSpace (rev t))"
    by (simp only: trimEnd_def)
  then show ?thesis by blast
qed

lemma is_trimmed_trim: "is_trimmed (trim s)"
proof (cases "trim s")
  case Nil
  then show ?thesis by (simp add: is_trimmed_def)
next
  case (Cons c cs)
  let ?t = "trimStart s"
  obtain ys where ys: "?t = trim s @ ys" using trimEnd_prefix [of ?t] by (auto simp: trim_def)
  then have t: "?t = c # cs @ ys" using Cons by simp
  have "?t \<noteq> []" using t by simp
  then have "\<not> isWhiteSpace (hd ?t)" unfolding trimStart_def by (rule hd_dropWhile)
  then have first: "\<not> isWhiteSpace c" using t by simp
  have ne: "dropWhile isWhiteSpace (rev ?t) \<noteq> []" using Cons by (simp add: trim_def trimEnd_def)
  have "last (trim s) = hd (dropWhile isWhiteSpace (rev ?t))"
    using ne by (simp add: trim_def trimEnd_def last_rev)
  moreover have "\<not> isWhiteSpace (hd (dropWhile isWhiteSpace (rev ?t)))"
    using ne by (rule hd_dropWhile)
  ultimately have "\<not> isWhiteSpace (last (trim s))" by simp
  with first Cons show ?thesis by (simp add: is_trimmed_def)
qed

lemma scanLine_trimmed:
  "list_all is_trimmed vs \<Longrightarrow> list_all is_trimmed (scanLine line vs current inQuotes)"
proof (induction line vs current inQuotes rule: scanLine.induct)
  case (1 vs current inQuotes)
  then show ?case by (simp add: is_trimmed_trim)
next
  case (2 c rest vs current inQuotes)
  then show ?case by (auto simp: is_trimmed_trim split: list.splits)
qed

lemma parseCSVLine_trimmed: "list_all is_trimmed (parseCSVLine line)"
  unfolding parseCSVLine_def by (rule scanLine_trimmed) simp

lemma cell_trimmed: "list_all is_trimmed vs \<Longrightarrow> is_trimmed (cell vs i)"
  by (auto simp: cell_def list_all_length is_trimmed_def)


lemma set_update_subset: "set (AList.update k v al) \<subseteq> insert (k, v) (set al)"
  by (induction al) auto

lemma assignCells_entries:
  "(k, v) \<in> set (assignCells hs n vs row) \<Longrightarrow>
     (k, v) \<in> set row \<or> (k \<in> set hs \<and> (\<exists>i. v = cell vs i))"
proof (induction hs n vs row rule: assignCells.induct)
  case (1 index vs row)
  then show ?case by simp
next
  case (2 header headers index vs row)
  from 2 have "(k, v) \<in> set (setProp header (cell vs index) row)
      \<or> (k \<in> set headers \<and> (\<exists>i. v = cell vs i))" by simp
  then show ?case using set_update_subset [of header "cell vs index" row]
    by (auto simp: setProp_def split: if_splits)
qed



lemma parseLines_eq:
  "parseLines headers ls acc =
     acc @ filter hasDateAndEstimate (map (rowOf headers) (filter (\<lambda>l. truthy_str (trim l)) ls))"
  by (induction headers ls acc rule: parseLines.induct)
     (simp_all add: Let_def rowOf_def hasDateAndEstimate_def)

lemma filter_tl_filter: "filter P (tl (filter P xs)) = tl (filter P xs)"
proof -
  have "P x" if "x \<in> set (tl (filter P xs))" for x
  proof -
    from that have "x \<in> set (filter P xs)" by (cases "filter P xs") auto
    then show ?thesis by simp
  qed
  then show ?thesis by (simp add: filter_id_conv)
qed

lemma parseCSV_rows:
  "2 \<le> length (nonBlankLines t) \<Longrightarrow>
     parseCSV t = Inr (filter hasDateAndEstimate
                    (map (rowOf (headerCells (hd (nonBlankLines t)))) (tl (nonBlankLines t))))"
proof -
  assume len: "2 \<le> length (nonBlankLines t)"
  then obtain first others where fo: "nonBlankLines t = first # others"
    by (cases "nonBlankLines t") auto
  have "filter (\<lambda>l. truthy_str (trim l)) others = others"
    using filter_tl_filter [of "\<lambda>l. truthy_str (trim l)" "split (CHR 0x0A) t"] fo
    by (simp add: nonBlankLines_def)
  then show ?thesis using len fo by (auto simp: parseCSV_def Let_def parseLines_eq)
qed




lemma csvExample_lines: "nonBlankLines csvExample = [''Date,Estimate,'' @ [CHR 0x22] @ '' x '' @ [CHR 0x22], ''1/15/2024,45,7'']"
  by (simp add: csvExample_def nonBlankLines_def truthy_str_def trim_def trimStart_def trimEnd_def isWhiteSpace_def)

lemma csvExample_rows:
  "parseCSV csvExample = Inr [[(''Date'', ''1/15/2024''), (''Estimate'', ''45''), ('' x '', ''7'')]]"
  by code_simp



lemma parseCSV_row_form:
  assumes "parseCSV t = Inr rows" and "row \<in> set rows"
  shows "\<exists>l. row = rowOf (headerCells (hd (nonBlankLines t))) l"
proof -
  have len: "2 \<le> length (nonBlankLines t)"
    using assms(1) by (cases "length (nonBlankLines t) < 2") (simp_all add: parseCSV_def Let_def)
  from parseCSV_rows [OF len] assms show ?thesis by auto
qed

text \<open>
  C10, as amended. Every value that \<open>parseCSVLine\<close> produces is trimmed, white space
  inside a quoted span included, so no value of a parsed row begins or ends with white
  space. Every key of a parsed row is a header cell that was trimmed first and had its
  quote characters removed afterwards; it is trimmed when the cell contains no quote.
\<close>

theorem parsed_values_trimmed:
  "list_all is_trimmed (parseCSVLine line)
   \<and> (parseCSV t = Inr rows \<and> row \<in> set rows \<and> (k, v) \<in> set row \<longrightarrow>
        is_trimmed v
        \<and> (\<exists>c \<in> set (split (CHR '','') (hd (nonBlankLines t))).
              k = filter (\<lambda>x. x \<noteq> CHR 0x22) (trim c) \<and> (CHR 0x22 \<notin> set c \<longrightarrow> is_trimmed k)))"
proof -
  have main: "is_trimmed v
        \<and> (\<exists>c \<in> set (split (CHR '','') (hd (nonBlankLines t))).
              k = filter (\<lambda>x. x \<noteq> CHR 0x22) (trim c) \<and> (CHR 0x22 \<notin> set c \<longrightarrow> is_trimmed k))"
    if p: "parseCSV t = Inr rows" and r: "row \<in> set rows" and kv: "(k, v) \<in> set row"
  proof -
    from parseCSV_row_form [OF p r] obtain l
      where row: "row = rowOf (headerCells (hd (nonBlankLines t))) l" by blast
    from kv have "(k, v) \<in> set (assignCells (headerCells (hd (nonBlankLines t))) 0 (parseCSVLine (trim l)) [])"
      by (simp add: row rowOf_def)
    from assignCells_entries [OF this]
    have kh: "k \<in> set (headerCells (hd (nonBlankLines t)))"
      and vc: "\<exists>i. v = cell (parseCSVLine (trim l)) i" by auto
    from vc have tv: "is_trimmed v" using cell_trimmed [OF parseCSVLine_trimmed] by blast
    from kh obtain c where c: "c \<in> set (split (CHR '','') (hd (nonBlankLines t)))"
      and kc: "k = filter (\<lambda>x. x \<noteq> CHR 0x22) (trim c)"
      by (auto simp: headerCells_def)
    have "is_trimmed k" if nq: "CHR 0x22 \<notin> set c"
    proof -
      obtain ys where "trimStart c = trim c @ ys" using trimEnd_prefix [of "trimStart c"] by (auto simp: trim_def)
      moreover have "set (trimStart c) \<subseteq> set c" unfolding trimStart_def by (rule set_dropWhileD [THEN subsetI])
      ultimately have "CHR 0x22 \<notin> set (trim c)" using nq
        by (metis Un_iff set_append subsetD)
      then have "filter (\<lambda>x. x \<noteq> CHR 0x22) (trim c) = trim c" by (auto simp: filter_id_conv)
      then show ?thesis using is_trimmed_trim [of c] kc by simp
    qed
    with tv c kc show ?thesis by blast
  qed
  show ?thesis using parseCSVLine_trimmed [of line] main by blast
qed

text \<open>
  The claim as stated fails for keys: the header cell \<open>" x "\<close> is trimmed while the quotes
  still enclose the blanks, and the key of the parsed row is \<open>x\<close> between two blanks.
\<close>

theorem header_key_untrimmed:
  "parseCSV csvExample = Inr [[(''Date'', ''1/15/2024''), (''Estimate'', ''45''), ('' x '', ''7'')]]
   \<and> \<not> is_trimmed '' x ''"
  using csvExample_rows by (simp add: is_trimmed_def isWhiteSpace_def)

theorem parsed_values_trimmed_witness:
  \<open>list_all is_trimmed (parseCSVLine ''a, " b " ,c'')
   \<and> is_trimmed ''7''
   \<and> (\<exists>c \<in> set (split (CHR '','') (hd (nonBlankLines csvExample))).
          '' x '' = filter (\<lambda>x. x \<noteq> CHR 0x22) (trim c))\<close>
proof -
  have m: "[(''Date'', ''1/15/2024''), (''Estimate'', ''45''), ('' x '', ''7'')]
             \<in> set [[(''Date'', ''1/15/2024''), (''Estimate'', ''45''), ('' x '', ''7'')]]
           \<and> ('' x '', ''7'') \<in> set [(''Date'', ''1/15/2024''), (''Estimate'', ''45''), ('' x '', ''7'')]"
    by simp
  show ?thesis
    using parsed_values_trimmed [of \<open>''a, " b " ,c''\<close> csvExample
        "[[(''Date'', ''1/15/2024''), (''Estimate'', ''45''), ('' x '', ''7'')]]"
        "[(''Date'', ''1/15/2024''), (''Estimate'', ''45''), ('' x '', ''7'')]" "'' x ''" "''7''"]
      csvExample_rows m by blast
qed

section \<open>Keys of days and of labels\<close>

lemma digit_val_digit_char: "d < 10 \<Longrightarrow> digit_val (digit_char d) = d"
  by (simp add: digit_val_def digit_char_def)

lemma isDigit_digit_char: "d < 10 \<Longrightarrow> isDigit (digit_char d)"
  by (simp add: isDigit_def digit_char_def)

lemma digits_val_snoc: "digits_val (xs @ [c]) = 10 * digits_val xs + digit_val c"
  by (simp add: digits_val_def)

lemma digits_val_digits_of: "digits_val (digits_of n) = n"
proof (induction n rule: digits_of.induct)
  case (1 n)
  show ?case
  proof (cases "n < 10")
    case True
    then show ?thesis
      using digits_val_snoc [of "[]" "digit_char n"]
      by (simp add: digits_of.simps [of n] digit_val_digit_char digits_val_def)
  next
    case False
    then show ?thesis
      using 1 by (simp add: digits_of.simps [of n] digits_val_snoc digit_val_digit_char)
  qed
qed

lemma digits_of_nonempty: "digits_of n \<noteq> []"
  by (subst digits_of.simps) simp

lemma digits_of_isDigit: "c \<in> set (digits_of n) \<Longrightarrow> isDigit c"
proof (induction n rule: digits_of.induct)
  case (1 n)
  then show ?case
    by (cases "n < 10") (auto simp: digits_of.simps [of n] isDigit_digit_char)
qed

lemma isDigit_not_minus: "isDigit c \<Longrightarrow> c \<noteq> CHR ''-''"
  by (auto simp: isDigit_def)

lemma isDigit_not_N: "isDigit c \<Longrightarrow> c \<noteq> CHR ''N''"
  by (auto simp: isDigit_def)

lemma digits_of_no_minus: "CHR ''-'' \<notin> set (digits_of n)"
  using digits_of_isDigit isDigit_not_minus by blast

lemma hd_digits_of: "isDigit (hd (digits_of n))"
  using digits_of_isDigit [of "hd (digits_of n)" n] digits_of_nonempty [of n] by simp

lemma toString_inj: "toString i = toString j \<Longrightarrow> i = j"
proof -
  assume eq: "toString i = toString j"
  have mixed: False if "toString a = CHR ''-'' # digits_of m" and "toString a = digits_of k" for a m k
    using that hd_digits_of [of k] isDigit_not_minus by (metis list.sel(1))
  show ?thesis
  proof (cases "i < 0"; cases "j < 0")
    assume "i < 0" "j < 0"
    with eq have "digits_of (nat (- i)) = digits_of (nat (- j))" by (simp add: toString_def)
    then have "digits_val (digits_of (nat (- i))) = digits_val (digits_of (nat (- j)))" by simp
    then have "nat (- i) = nat (- j)" by (simp only: digits_val_digits_of)
    with \<open>i < 0\<close> \<open>j < 0\<close> show ?thesis by simp
  next
    assume "\<not> i < 0" "\<not> j < 0"
    with eq have "digits_of (nat i) = digits_of (nat j)" by (simp add: toString_def)
    then have "digits_val (digits_of (nat i)) = digits_val (digits_of (nat j))" by simp
    then have "nat i = nat j" by (simp only: digits_val_digits_of)
    with \<open>\<not> i < 0\<close> \<open>\<not> j < 0\<close> show ?thesis by simp
  next
    assume "i < 0" "\<not> j < 0"
    then have False using mixed [of i "nat (- i)" "nat j"] eq by (simp add: toString_def)
    then show ?thesis ..
  next
    assume "\<not> i < 0" "j < 0"
    then have False using mixed [of j "nat (- j)" "nat i"] eq by (simp add: toString_def)
    then show ?thesis ..
  qed
qed

lemma toString_not_NaN: "toString i \<noteq> ''NaN''"
proof
  assume eq: "toString i = ''NaN''"
  show False
  proof (cases "i < 0")
    case True
    with eq show False by (simp add: toString_def)
  next
    case False
    with eq have "digits_of (nat i) = ''NaN''" by (simp add: toString_def)
    then have "hd (digits_of (nat i)) = CHR ''N''" by simp
    then show False using hd_digits_of [of "nat i"] isDigit_not_N by blast
  qed
qed

lemma numString_inj: "numString a = numString b \<Longrightarrow> a = b"
  using toString_inj toString_not_NaN
  by (cases a; cases b) (auto simp: numString_def dest: sym)

lemma tokenlike_toString: "tokenlike (toString i)"
  unfolding tokenlike_def toString_def
  using digits_of_nonempty digits_of_no_minus by auto

lemma tokenlike_numString: "tokenlike (numString v)"
proof (cases v)
  case None
  have "tokenlike ''NaN''" unfolding tokenlike_def by (rule exI [of _ "''NaN''"]) simp
  with None show ?thesis by (simp add: numString_def)
next
  case (Some i)
  then show ?thesis by (simp add: numString_def tokenlike_toString)
qed

lemma split_unique:
  "c \<notin> set a \<Longrightarrow> c \<notin> set b \<Longrightarrow> a @ c # r = b @ c # r' \<Longrightarrow> a = b \<and> r = r'"
proof (induction a arbitrary: b)
  case Nil
  then show ?case by (cases b) auto
next
  case (Cons x a)
  then show ?case by (cases b) auto
qed

lemma token_split:
  assumes "tokenlike a" and "tokenlike b" and eq: "a @ CHR ''-'' # r = b @ CHR ''-'' # r'"
  shows "a = b \<and> r = r'"
proof -
  from assms(1) obtain p where p: "p \<noteq> []" "CHR ''-'' \<notin> set p" "a = p \<or> a = CHR ''-'' # p"
    unfolding tokenlike_def by blast
  from assms(2) obtain q where q: "q \<noteq> []" "CHR ''-'' \<notin> set q" "b = q \<or> b = CHR ''-'' # q"
    unfolding tokenlike_def by blast
  have hp: "hd p \<noteq> CHR ''-''" using p(1,2) by (cases p) auto
  have hq: "hd q \<noteq> CHR ''-''" using q(1,2) by (cases q) auto
  consider "a = p" "b = q" | "a = CHR ''-'' # p" "b = CHR ''-'' # q"
    | "a = p" "b = CHR ''-'' # q" | "a = CHR ''-'' # p" "b = q"
    using p(3) q(3) by blast
  then show ?thesis
  proof cases
    case 1
    then show ?thesis using split_unique [OF p(2) q(2)] eq by simp
  next
    case 2
    then show ?thesis using split_unique [OF p(2) q(2)] eq by simp
  next
    case 3
    then have "hd p = CHR ''-''" using eq p(1) by (cases p) auto
    then show ?thesis using hp by simp
  next
    case 4
    then have "hd q = CHR ''-''" using eq q(1) by (cases q) auto
    then show ?thesis using hq by simp
  qed
qed

lemma dayKey_inj:
  assumes "dayKey pf a = dayKey pf b"
  shows "getDate pf a = getDate pf b \<and> getMonth pf a = getMonth pf b \<and> getFullYear pf a = getFullYear pf b"
proof -
  from assms have e1: "numString (getDate pf a) @ CHR ''-'' # (numString (getMonth pf a) @ ''-'' @ numString (getFullYear pf a))
      = numString (getDate pf b) @ CHR ''-'' # (numString (getMonth pf b) @ ''-'' @ numString (getFullYear pf b))"
    by (simp add: dayKey_def)
  from token_split [OF tokenlike_numString tokenlike_numString e1]
  have d: "numString (getDate pf a) = numString (getDate pf b)"
    and e2: "numString (getMonth pf a) @ CHR ''-'' # numString (getFullYear pf a)
      = numString (getMonth pf b) @ CHR ''-'' # numString (getFullYear pf b)" by simp_all
  from token_split [OF tokenlike_numString tokenlike_numString e2]
  have m: "numString (getMonth pf a) = numString (getMonth pf b)"
    and y: "numString (getFullYear pf a) = numString (getFullYear pf b)" by simp_all
  from d m y show ?thesis by (simp add: numString_inj)
qed

lemma MonthFromTime_range: "0 \<le> MonthFromTime t \<and> MonthFromTime t < 12"
  by (simp add: MonthFromTime_def monthFromDay_def)

lemma length_monthNames: "length monthNames = 12"
  by (simp add: monthNames_def)

lemma monthName_Some:
  "0 \<le> i \<Longrightarrow> i < 12 \<Longrightarrow> monthName (Some i) = Some (monthNames ! nat i)"
  by (simp add: monthName_def length_monthNames)

lemma distinct_monthNames: "distinct monthNames"
  by (simp add: monthNames_def)

lemma monthNames_length3: "i < 12 \<Longrightarrow> length (monthNames ! i) = 3"
proof -
  have "\<forall>n \<in> set monthNames. length n = 3" by (simp add: monthNames_def)
  moreover assume "i < 12"
  then have "monthNames ! i \<in> set monthNames" using length_monthNames by (intro nth_mem) simp
  ultimately show ?thesis by blast
qed

lemma monthNames_no_minus: "i < 12 \<Longrightarrow> CHR ''-'' \<notin> set (monthNames ! i)"
proof -
  have "\<forall>n \<in> set monthNames. CHR ''-'' \<notin> set n" by (simp add: monthNames_def)
  moreover assume "i < 12"
  then have "monthNames ! i \<in> set monthNames" using length_monthNames by (intro nth_mem) simp
  ultimately show ?thesis by blast
qed

lemma labelKey_inj:
  assumes "labelKey pf (Some s) = labelKey pf (Some t)"
  shows "getMonth pf (Some s) = getMonth pf (Some t) \<and> getFullYear pf (Some s) = getFullYear pf (Some t)"
proof -
  let ?m = "MonthFromTime (LocalTime pf s)" and ?n = "MonthFromTime (LocalTime pf t)"
  have rm: "0 \<le> ?m" "?m < 12" and rn: "0 \<le> ?n" "?n < 12" using MonthFromTime_range by simp_all
  have km: "propString (monthName (getMonth pf (Some s))) = monthNames ! nat ?m"
    using rm by (simp add: getMonth_def monthName_Some propString_def)
  have kn: "propString (monthName (getMonth pf (Some t))) = monthNames ! nat ?n"
    using rn by (simp add: getMonth_def monthName_Some propString_def)
  have nm: "CHR ''-'' \<notin> set (monthNames ! nat ?m)" using rm by (intro monthNames_no_minus) simp
  have nn: "CHR ''-'' \<notin> set (monthNames ! nat ?n)" using rn by (intro monthNames_no_minus) simp
  from assms have "monthNames ! nat ?m @ CHR ''-'' # numString (getFullYear pf (Some s))
      = monthNames ! nat ?n @ CHR ''-'' # numString (getFullYear pf (Some t))"
    by (simp add: labelKey_def km kn)
  from split_unique [OF nm nn this]
  have a: "monthNames ! nat ?m = monthNames ! nat ?n"
    and y: "numString (getFullYear pf (Some s)) = numString (getFullYear pf (Some t))" by simp_all
  have "nat ?m = nat ?n"
    using a rm rn distinct_monthNames length_monthNames by (simp add: nth_eq_iff_index_eq)
  then have "?m = ?n" using rm rn by simp
  with y show ?thesis by (simp add: getMonth_def numString_inj)
qed

section \<open>The series: order and calendar days\<close>

lemma dayKey_eq_iff:
  "dayKey pf (itemTime h a) = dayKey pf (itemTime h b) \<longleftrightarrow> calendarDay pf h a = calendarDay pf h b"
  using dayKey_inj [of pf "itemTime h a" "itemTime h b"]
  by (auto simp: calendarDay_def dayKey_def)

lemma firstOfEachDay_Nil: "firstOfEachDay pf h [] = []"
  by (simp add: firstOfEachDay_def)

lemma firstOfEachDay_snoc:
  "firstOfEachDay pf h (xs @ [x]) =
     firstOfEachDay pf h xs @ (if calendarDay pf h x \<in> calendarDay pf h ` set xs then [] else [x])"
proof -
  let ?d = "calendarDay pf h"
  let ?P = "\<lambda>s i. list_all (\<lambda>j. ?d (s ! j) \<noteq> ?d (s ! i)) [0..<i]"
  have old: "?P (xs @ [x]) i = ?P xs i" if "i < length xs" for i
    using that by (auto simp: list_all_iff nth_append)
  have f: "filter (?P (xs @ [x])) [0..<length xs] = filter (?P xs) [0..<length xs]"
    by (rule filter_cong) (simp_all add: old)
  have m: "map (nth (xs @ [x])) (filter (?P xs) [0..<length xs]) = map (nth xs) (filter (?P xs) [0..<length xs])"
    by (rule map_cong) (auto simp: nth_append)
  have "?P (xs @ [x]) (length xs) \<longleftrightarrow> (\<forall>j < length xs. ?d (xs ! j) \<noteq> ?d x)"
    by (auto simp: list_all_iff nth_append)
  also have "\<dots> \<longleftrightarrow> (\<forall>y \<in> set xs. ?d y \<noteq> ?d x)"
    by (simp add: all_set_conv_all_nth)
  also have "\<dots> \<longleftrightarrow> ?d x \<notin> ?d ` set xs" by (metis imageE image_eqI)
  finally have last: "?P (xs @ [x]) (length xs) \<longleftrightarrow> ?d x \<notin> ?d ` set xs" .
  show ?thesis
    unfolding firstOfEachDay_def using f m last by simp
qed

lemma set_firstOfEachDay: "set (firstOfEachDay pf h xs) \<subseteq> set xs"
  by (induction xs rule: rev_induct) (auto simp: firstOfEachDay_Nil firstOfEachDay_snoc)




lemma uniqueLoop_snoc_general:
  "uniqueLoop pf h (xs @ [x]) seen acc =
     (let r = uniqueLoop pf h xs seen acc
      in if dayKey pf (itemTime h x) \<in> seen \<union> (\<lambda>y. dayKey pf (itemTime h y)) ` set xs then r else r @ [x])"
proof (induction xs arbitrary: seen acc)
  case Nil
  then show ?case by (simp add: Let_def)
next
  case (Cons y ys)
  show ?case by (simp add: Let_def Cons.IH)
qed

lemma uniqueLoop_firstOfEachDay: "uniqueLoop pf h xs {} [] = firstOfEachDay pf h xs"
proof (induction xs rule: rev_induct)
  case Nil
  then show ?case by (simp add: firstOfEachDay_Nil)
next
  case (snoc x xs)
  have "dayKey pf (itemTime h x) \<in> (\<lambda>y. dayKey pf (itemTime h y)) ` set xs
      \<longleftrightarrow> calendarDay pf h x \<in> calendarDay pf h ` set xs"
    by (auto simp: image_iff dayKey_eq_iff)
  then show ?case by (simp add: uniqueLoop_snoc_general snoc.IH firstOfEachDay_snoc Let_def)
qed

lemma dateFiltered_valid:
  "item \<in> set (dateFilteredMinProcessedData h minDate processedData) \<Longrightarrow> itemTime h item \<noteq> None"
  by (auto simp: dateFilteredMinProcessedData_def)






section \<open>The labels\<close>

lemma labelLoop_snoc: "labelLoop pf h (u @ [x]) st = labelStep pf h (labelLoop pf h u st) x"
  by (simp add: labelLoop_def)

lemma labelLoop_Nil: "labelLoop pf h [] st = st"
  by (simp add: labelLoop_def)

lemma labelKey_eq_iff:
  assumes "itemTime h a \<noteq> None" and "itemTime h b \<noteq> None"
  shows "labelKey pf (itemTime h a) = labelKey pf (itemTime h b) \<longleftrightarrow> monthYear pf h a = monthYear pf h b"
proof
  assume "labelKey pf (itemTime h a) = labelKey pf (itemTime h b)"
  then show "monthYear pf h a = monthYear pf h b"
    using assms labelKey_inj [of pf "the (itemTime h a)" "the (itemTime h b)"]
    by (auto simp: monthYear_def)
next
  assume "monthYear pf h a = monthYear pf h b"
  then show "labelKey pf (itemTime h a) = labelKey pf (itemTime h b)"
    by (simp add: monthYear_def labelKey_def)
qed

lemma expectedLabels_Nil: "expectedLabels pf h [] = []"
  by (simp add: expectedLabels_def)

lemma expectedLabels_snoc:
  "expectedLabels pf h (u @ [x]) =
     expectedLabels pf h u @
       [if monthYear pf h x \<in> monthYear pf h ` set u then Some []
        else monthName (getMonth pf (itemTime h x))]"
proof -
  let ?m = "monthYear pf h"
  let ?L = "\<lambda>s i. if list_ex (\<lambda>j. ?m (s ! j) = ?m (s ! i)) [0..<i] then Some []
              else monthName (getMonth pf (itemTime h (s ! i)))"
  have old: "?L (u @ [x]) i = ?L u i" if "i < length u" for i
  proof -
    have "list_ex (\<lambda>j. ?m ((u @ [x]) ! j) = ?m ((u @ [x]) ! i)) [0..<i]
        \<longleftrightarrow> list_ex (\<lambda>j. ?m (u ! j) = ?m (u ! i)) [0..<i]"
      using that by (auto simp: list_ex_iff nth_append)
    then show ?thesis using that by (simp add: nth_append)
  qed
  have m: "map (?L (u @ [x])) [0..<length u] = map (?L u) [0..<length u]"
    by (rule map_cong) (simp_all add: old)
  have "list_ex (\<lambda>j. ?m ((u @ [x]) ! j) = ?m ((u @ [x]) ! length u)) [0..<length u]
      \<longleftrightarrow> (\<exists>j < length u. ?m (u ! j) = ?m x)"
    by (auto simp: list_ex_iff nth_append)
  also have "\<dots> \<longleftrightarrow> (\<exists>y \<in> set u. ?m y = ?m x)"
    by (metis in_set_conv_nth)
  also have "\<dots> \<longleftrightarrow> ?m x \<in> ?m ` set u" by (metis imageE image_eqI)
  finally have last: "list_ex (\<lambda>j. ?m ((u @ [x]) ! j) = ?m ((u @ [x]) ! length u)) [0..<length u]
      \<longleftrightarrow> ?m x \<in> ?m ` set u" .
  show ?thesis unfolding expectedLabels_def using m last by simp
qed

lemma labelLoop_labels:
  assumes "\<forall>x \<in> set u. itemTime h x \<noteq> None"
  shows "labels_acc (labelLoop pf h u (initialLoopState m)) = expectedLabels pf h u
       \<and> seenLabels (labelLoop pf h u (initialLoopState m)) = (\<lambda>x. labelKey pf (itemTime h x)) ` set u"
  using assms
proof (induction u rule: rev_induct)
  case Nil
  then show ?case by (simp add: labelLoop_Nil expectedLabels_Nil initialLoopState_def)
next
  case (snoc x u)
  let ?st = "labelLoop pf h u (initialLoopState m)"
  from snoc have IH: "labels_acc ?st = expectedLabels pf h u"
    "seenLabels ?st = (\<lambda>x. labelKey pf (itemTime h x)) ` set u" by simp_all
  have "labelKey pf (itemTime h x) \<in> (\<lambda>y. labelKey pf (itemTime h y)) ` set u
      \<longleftrightarrow> monthYear pf h x \<in> monthYear pf h ` set u"
    using snoc.prems labelKey_eq_iff [of h x _ pf] by (auto simp: image_iff)
  then show ?case
    by (auto simp: labelLoop_snoc labelStep_def Let_def IH expectedLabels_snoc)
qed

lemma labelLoop_data:
  "estimateData (labelLoop pf h u st) = estimateData st @ map estimate u
   \<and> fifthPercentileData (labelLoop pf h u st) = fifthPercentileData st @ map fifthPercentile u
   \<and> ninetyFifthPercentileData (labelLoop pf h u st)
        = ninetyFifthPercentileData st @ map ninetyFifthPercentile u
   \<and> maxSteps_acc (labelLoop pf h u st)
        = foldl (\<lambda>m item. Math_max [m, estimate item, fifthPercentile item, ninetyFifthPercentile item])
            (maxSteps_acc st) u"
  by (induction u rule: rev_induct) (simp_all add: labelLoop_Nil labelLoop_snoc labelStep_def Let_def)

lemma length_expectedLabels: "length (expectedLabels pf h u) = length u"
  by (simp add: expectedLabels_def)

lemma monthName_valid:
  "\<exists>m. 0 \<le> m \<and> m < 12 \<and> getMonth pf (Some t) = Some m
       \<and> monthName (getMonth pf (Some t)) = Some (monthNames ! nat m)
       \<and> length (monthNames ! nat m) = 3"
proof -
  let ?m = "MonthFromTime (LocalTime pf t)"
  have r: "0 \<le> ?m" "?m < 12" using MonthFromTime_range by simp_all
  then have "nat ?m < 12" by simp
  then have "length (monthNames ! nat ?m) = 3" by (rule monthNames_length3)
  with r show ?thesis by (auto simp: getMonth_def monthName_Some)
qed

lemma count_expectedLabels:
  assumes "\<forall>x \<in> set u. itemTime h x \<noteq> None"
  shows "length (filter (\<lambda>l. l \<noteq> Some []) (expectedLabels pf h u)) = card (monthYear pf h ` set u)"
  using assms
proof (induction u rule: rev_induct)
  case Nil
  then show ?case by (simp add: expectedLabels_Nil)
next
  case (snoc x u)
  from snoc.prems obtain t where t: "itemTime h x = Some t" by auto
  from monthName_valid [of pf t] obtain m where
    m: "monthName (getMonth pf (Some t)) = Some (monthNames ! nat m)" "length (monthNames ! nat m) = 3"
    by blast
  then have ne: "monthName (getMonth pf (itemTime h x)) \<noteq> Some []" using t by auto
  from snoc have IH: "length (filter (\<lambda>l. l \<noteq> Some []) (expectedLabels pf h u)) = card (monthYear pf h ` set u)"
    by simp
  show ?case
  proof (cases "monthYear pf h x \<in> monthYear pf h ` set u")
    case True
    then have "insert (monthYear pf h x) (monthYear pf h ` set u) = monthYear pf h ` set u" by auto
    with True IH show ?thesis by (simp add: expectedLabels_snoc)
  next
    case False
    with IH ne show ?thesis by (simp add: expectedLabels_snoc)
  qed
qed

section \<open>The numbers of a record and the axis scale\<close>

lemma processDataForChart_parts:
  assumes "processDataForChart pf this rows = (cd, h, this')"
  shows "\<exists>processedData h1 minDate.
           buildProcessedData pf rows = (processedData, h1, minDate)
           \<and> h = moveToWindowFloor pf minDate h1
           \<and> rawData cd = uniqueLoop pf h (dateFilteredMinProcessedData h minDate processedData) {} []"
    and "labels cd = labels_acc (labelLoop pf h (rawData cd) (initialLoopState (maxSteps this)))"
    and "this' = this\<lparr> maxSteps :=
                     newMaxSteps (maxSteps_acc (labelLoop pf h (rawData cd) (initialLoopState (maxSteps this))))
                       (newStepSize (maxSteps_acc (labelLoop pf h (rawData cd) (initialLoopState (maxSteps this))))),
                   stepSize :=
                     newStepSize (maxSteps_acc (labelLoop pf h (rawData cd) (initialLoopState (maxSteps this)))) \<rparr>"
  using assms
  by (auto simp: processDataForChart_def Let_def initialLoopState_def split: prod.splits)

lemma rawData_valid:
  assumes "processDataForChart pf this rows = (cd, h, this')"
  shows "\<forall>item \<in> set (rawData cd). itemTime h item \<noteq> None"
proof -
  from processDataForChart_parts(1) [OF assms] obtain processedData minDate where
    "rawData cd = uniqueLoop pf h (dateFilteredMinProcessedData h minDate processedData) {} []"
    by blast
  then have "set (rawData cd) \<subseteq> set (dateFilteredMinProcessedData h minDate processedData)"
    using set_firstOfEachDay by (simp add: uniqueLoop_firstOfEachDay)
  then show ?thesis using dateFiltered_valid by blast
qed







lemma Math_max4: "Math_max [Fin r, Fin a, Fin b, Fin c] = Fin (max (max (max r a) b) c)"
  by (simp add: Math_max_def)










section \<open>Running the pipeline in stages\<close>

lemma processDataForChart_components:
  "processDataForChart pf this rows = (chartOf pf this rows, storeOf pf this rows, readerOf pf this rows)"
  by (simp add: chartOf_def storeOf_def readerOf_def)

lemma series_by_stages:
  assumes "buildProcessedData pf rows = (items, h1, m)"
      and "moveToWindowFloor pf m h1 = H"
      and "dateFilteredMinProcessedData H m items = s"
      and "uniqueLoop pf H s {} [] = u"
  shows "rawData (chartOf pf this rows) = u" and "storeOf pf this rows = H"
  using assms by (simp_all add: chartOf_def storeOf_def processDataForChart_def Let_def)

lemma reader_by_stages:
  "readerOf pf this rows =
     this\<lparr> maxSteps :=
             newMaxSteps
               (foldl (\<lambda>m item. Math_max [m, estimate item, fifthPercentile item, ninetyFifthPercentile item])
                  (maxSteps this) (rawData (chartOf pf this rows)))
               (newStepSize
                  (foldl (\<lambda>m item. Math_max [m, estimate item, fifthPercentile item, ninetyFifthPercentile item])
                     (maxSteps this) (rawData (chartOf pf this rows)))),
           stepSize :=
             newStepSize
               (foldl (\<lambda>m item. Math_max [m, estimate item, fifthPercentile item, ninetyFifthPercentile item])
                  (maxSteps this) (rawData (chartOf pf this rows))) \<rparr>"
  using processDataForChart_parts(3) [OF processDataForChart_components [of pf this rows]]
    labelLoop_data [of pf "storeOf pf this rows" "rawData (chartOf pf this rows)" "initialLoopState (maxSteps this)"]
  by (simp add: initialLoopState_def)

lemma labels_by_stages:
  "labels (chartOf pf this rows) = expectedLabels pf (storeOf pf this rows) (rawData (chartOf pf this rows))"
  using processDataForChart_parts(2) [OF processDataForChart_components [of pf this rows]]
    labelLoop_labels [OF rawData_valid [OF processDataForChart_components [of pf this rows]]]
  by simp

lemma getProp_sampleRow:
  "getProp (sampleRow d e lo hi) ''Date'' = Some d"
  "getProp (sampleRow d e lo hi) ''Estimate'' = Some e"
  by (simp_all add: getProp_def sampleRow_def)

lemma truthy_sampleRow:
  "truthy_prop (sampleRow d e lo hi) ''Date'' = (d \<noteq> [])"
  "truthy_prop (sampleRow d e lo hi) ''Estimate'' = (e \<noteq> [])"
  by (simp_all add: truthy_prop_def getProp_sampleRow truthy_str_def)

lemma utc_getters:
  "getFullYear utcPlatform (Some t) = Some (YearFromTime t)"
  "getMonth utcPlatform (Some t) = Some (MonthFromTime t)"
  "getDate utcPlatform (Some t) = Some (DateFromTime t)"
  by (simp_all add: getFullYear_def getMonth_def getDate_def LocalTime_def utcPlatform_def)

lemma utc_setters:
  "setMonth utcPlatform (Some t) (Some m) =
     TimeClip (MakeDate (MakeDay (YearFromTime t) m (DateFromTime t)) (TimeWithinDay t))"
  "setDate utcPlatform (Some t) (Some d) =
     TimeClip (MakeDate (MakeDay (YearFromTime t) (MonthFromTime t) d) (TimeWithinDay t))"
  by (simp_all add: setMonth_def setDate_def LocalTime_def UTC_def utcPlatform_def)

lemma utc_parse: "Date_parse utcPlatform s = parseMDY s"
  by (simp add: utcPlatform_def)

lemma utc_dayKey:
  "dayKey utcPlatform (Some t) =
     toString (DateFromTime t) @ ''-'' @ toString (MonthFromTime t) @ ''-'' @ toString (YearFromTime t)"
  by (simp add: dayKey_def utc_getters numString_def)

lemma parse_atoms:
  "parseMDY ''1/15/2024'' = Some 1705276800000"
  "parseMDY ''2/15/2024'' = Some 1707955200000"
  "parseMDY ''1/16/2024'' = Some 1705363200000"
  by code_simp+

lemma calendar_atoms:
  "YearFromTime 1707955200000 = 2024" "MonthFromTime 1707955200000 = 1"
  "DateFromTime 1707955200000 = 15" "TimeWithinDay 1707955200000 = 0"
  "YearFromTime 1705363200000 = 2024" "MonthFromTime 1705363200000 = 0"
  "DateFromTime 1705363200000 = 16" "TimeWithinDay 1705363200000 = 0"
  "YearFromTime 1705276800000 = 2024" "MonthFromTime 1705276800000 = 0"
  "DateFromTime 1705276800000 = 15" "TimeWithinDay 1705276800000 = 0"
  "YearFromTime 1702598400000 = 2023" "MonthFromTime 1702598400000 = 11"
  "DateFromTime 1702598400000 = 15" "TimeWithinDay 1702598400000 = 0"
  "YearFromTime 1701388800000 = 2023" "MonthFromTime 1701388800000 = 11"
  "DateFromTime 1701388800000 = 1" "TimeWithinDay 1701388800000 = 0"
  "YearFromTime 1700006400000 = 2023" "MonthFromTime 1700006400000 = 10"
  "DateFromTime 1700006400000 = 15" "TimeWithinDay 1700006400000 = 0"
  "YearFromTime 1698796800000 = 2023" "MonthFromTime 1698796800000 = 10"
  "DateFromTime 1698796800000 = 1" "TimeWithinDay 1698796800000 = 0"
  by code_simp+

lemma floor_atoms:
  "MakeDay 2024 (- 1) 15 = 19706" "MakeDay 2023 11 1 = 19692"
  "MakeDay 2024 (- 2) 15 = 19676" "MakeDay 2023 10 1 = 19662"
  by code_simp+

lemma key_atoms:
  "toString 0 = ''0''" "toString 1 = ''1''" "toString 10 = ''10''" "toString 11 = ''11''"
  "toString 15 = ''15''" "toString 16 = ''16''" "toString 2023 = ''2023''" "toString 2024 = ''2024''"
  by code_simp+

lemma number_atoms:
  "numberField (sampleRow ''1/15/2024'' ''45'' ''28'' ''65'') ''Estimate'' = Fin 45"
  "numberField (sampleRow ''1/15/2024'' ''45'' ''28'' ''65'') ''5th Percentile'' = Fin 28"
  "numberField (sampleRow ''1/15/2024'' ''45'' ''28'' ''65'') ''95th Percentile'' = Fin 65"
  "numberField (sampleRow ''2/15/2024'' ''48'' ''32'' ''68'') ''Estimate'' = Fin 48"
  "numberField (sampleRow ''2/15/2024'' ''48'' ''32'' ''68'') ''5th Percentile'' = Fin 32"
  "numberField (sampleRow ''2/15/2024'' ''48'' ''32'' ''68'') ''95th Percentile'' = Fin 68"
  "numberField (sampleRow ''1/15/2024'' ''99'' ''1'' ''100'') ''Estimate'' = Fin 99"
  "numberField (sampleRow ''1/15/2024'' ''99'' ''1'' ''100'') ''5th Percentile'' = Fin 1"
  "numberField (sampleRow ''1/15/2024'' ''99'' ''1'' ''100'') ''95th Percentile'' = Fin 100"
  "numberField (sampleRow ''1/16/2024'' ''50'' ''30'' ''70'') ''Estimate'' = Fin 50"
  "numberField (sampleRow ''1/16/2024'' ''50'' ''30'' ''70'') ''5th Percentile'' = Fin 30"
  "numberField (sampleRow ''1/16/2024'' ''50'' ''30'' ''70'') ''95th Percentile'' = Fin 70"
  "numberField (sampleRow ''1/15/2024'' ''-5'' ''-6'' ''-4'') ''Estimate'' = Fin (- 5)"
  "numberField (sampleRow ''1/15/2024'' ''-5'' ''-6'' ''-4'') ''5th Percentile'' = Fin (- 6)"
  "numberField (sampleRow ''1/15/2024'' ''-5'' ''-6'' ''-4'') ''95th Percentile'' = Fin (- 4)"
  by code_simp+

lemma two_nat: "Suc (Suc 0) = 2"
  by simp

lemmas stage_simps = two_nat newDate_def emptyStore_def writeDate_def Let_def date_ge_def
  getProp_sampleRow truthy_sampleRow utc_parse utc_getters utc_setters utc_dayKey
  parse_atoms calendar_atoms floor_atoms key_atoms number_atoms itemTime_def getTime_def
  MakeDate_def TimeClip_def msPerDay_def

lemma exampleRows_build:
  "buildProcessedData utcPlatform exampleRows =
     ([\<lparr> date = 1, estimate = Fin 45, fifthPercentile = Fin 28, ninetyFifthPercentile = Fin 65 \<rparr>,
       \<lparr> date = 2, estimate = Fin 48, fifthPercentile = Fin 32, ninetyFifthPercentile = Fin 68 \<rparr>],
      \<lparr> cells = (\<lambda>a. None)(0 := Some 0, 1 := Some 1705276800000, 2 := Some 1707955200000), fresh = 3 \<rparr>,
      2)"
  by (simp add: buildProcessedData_def exampleRows_def stage_simps)

lemma exampleRows_floor:
  "moveToWindowFloor utcPlatform 2
     \<lparr> cells = (\<lambda>a. None)(0 := Some 0, 1 := Some 1705276800000, 2 := Some 1707955200000), fresh = 3 \<rparr>
   = \<lparr> cells = (\<lambda>a. None)(0 := Some 0, 1 := Some 1705276800000, 2 := Some 1701388800000), fresh = 3 \<rparr>"
  by (simp add: moveToWindowFloor_def stage_simps)

lemma exampleRows_filtered:
  "dateFilteredMinProcessedData
     \<lparr> cells = (\<lambda>a. None)(0 := Some 0, 1 := Some 1705276800000, 2 := Some 1701388800000), fresh = 3 \<rparr> 2
     [\<lparr> date = 1, estimate = Fin 45, fifthPercentile = Fin 28, ninetyFifthPercentile = Fin 65 \<rparr>,
      \<lparr> date = 2, estimate = Fin 48, fifthPercentile = Fin 32, ninetyFifthPercentile = Fin 68 \<rparr>]
   = [\<lparr> date = 2, estimate = Fin 48, fifthPercentile = Fin 32, ninetyFifthPercentile = Fin 68 \<rparr>,
      \<lparr> date = 1, estimate = Fin 45, fifthPercentile = Fin 28, ninetyFifthPercentile = Fin 65 \<rparr>]"
  by (simp add: dateFilteredMinProcessedData_def stage_simps)

lemma exampleRows_unique:
  "uniqueLoop utcPlatform
     \<lparr> cells = (\<lambda>a. None)(0 := Some 0, 1 := Some 1705276800000, 2 := Some 1701388800000), fresh = 3 \<rparr>
     [\<lparr> date = 2, estimate = Fin 48, fifthPercentile = Fin 32, ninetyFifthPercentile = Fin 68 \<rparr>,
      \<lparr> date = 1, estimate = Fin 45, fifthPercentile = Fin 28, ninetyFifthPercentile = Fin 65 \<rparr>] {} []
   = [\<lparr> date = 2, estimate = Fin 48, fifthPercentile = Fin 32, ninetyFifthPercentile = Fin 68 \<rparr>,
      \<lparr> date = 1, estimate = Fin 45, fifthPercentile = Fin 28, ninetyFifthPercentile = Fin 65 \<rparr>]"
  by (simp add: stage_simps)

lemmas exampleRows_series =
  series_by_stages [OF exampleRows_build exampleRows_floor exampleRows_filtered exampleRows_unique]

lemma exampleRows_times: "seriesTimes exampleRows = [1701388800000, 1705276800000]"
  by (simp add: seriesTimes_def exampleRows_series itemTime_def getTime_def)

lemma exampleRows_first_call:
  "stepSize (readerOf utcPlatform constructor exampleRows) = Fin 15
   \<and> maxSteps (readerOf utcPlatform constructor exampleRows) = Fin 75"
  by (simp add: reader_by_stages exampleRows_series constructor_def Math_max4 newStepSize_def newMaxSteps_def)

section \<open>Runs of the pipeline\<close>

lemma chartOf_explicit:
  "chartOf pf this rows =
     \<lparr> labels = expectedLabels pf (storeOf pf this rows) (rawData (chartOf pf this rows)),
       datasets =
         [\<lparr> label = fifthPercentileTitleText this,
            data = map fifthPercentile (rawData (chartOf pf this rows)) \<rparr>,
          \<lparr> label = ninetyFifthPercentileTitleText this,
            data = map ninetyFifthPercentile (rawData (chartOf pf this rows)) \<rparr>,
          \<lparr> label = estimateTitleText this, data = map estimate (rawData (chartOf pf this rows)) \<rparr>],
       rawData = rawData (chartOf pf this rows) \<rparr>"
proof -
  obtain processedData h1 minDate where b: "buildProcessedData pf rows = (processedData, h1, minDate)"
    by (cases "buildProcessedData pf rows")
  let ?h = "moveToWindowFloor pf minDate h1"
  let ?u = "uniqueLoop pf ?h (dateFilteredMinProcessedData ?h minDate processedData) {} []"
  let ?st = "labelLoop pf ?h ?u (initialLoopState (maxSteps this))"
  have u: "rawData (chartOf pf this rows) = ?u" and h: "storeOf pf this rows = ?h"
    using series_by_stages [OF b refl refl refl] by simp_all
  have c: "chartOf pf this rows =
     \<lparr> labels = labels_acc ?st,
       datasets =
         [\<lparr> label = fifthPercentileTitleText this, data = fifthPercentileData ?st \<rparr>,
          \<lparr> label = ninetyFifthPercentileTitleText this, data = ninetyFifthPercentileData ?st \<rparr>,
          \<lparr> label = estimateTitleText this, data = estimateData ?st \<rparr>],
       rawData = ?u \<rparr>"
    by (simp add: chartOf_def processDataForChart_def b Let_def initialLoopState_def)
  have l: "labels_acc ?st = expectedLabels pf ?h ?u"
    using labels_by_stages [of pf this rows] c u h by simp
  have d: "fifthPercentileData ?st = map fifthPercentile ?u"
    "ninetyFifthPercentileData ?st = map ninetyFifthPercentile ?u"
    "estimateData ?st = map estimate ?u"
    using labelLoop_data [of pf ?h ?u "initialLoopState (maxSteps this)"]
    by (simp_all add: initialLoopState_def)
  show ?thesis unfolding u h by (subst c) (simp add: l d)
qed

lemma series_independent_of_reader:
  "rawData (chartOf pf this rows) = rawData (chartOf pf that rows)"
  "storeOf pf this rows = storeOf pf that rows"
proof -
  obtain processedData h1 minDate where b: "buildProcessedData pf rows = (processedData, h1, minDate)"
    by (cases "buildProcessedData pf rows")
  show "rawData (chartOf pf this rows) = rawData (chartOf pf that rows)"
    using series_by_stages(1) [OF b refl refl refl, of this] series_by_stages(1) [OF b refl refl refl, of that]
    by simp
  show "storeOf pf this rows = storeOf pf that rows"
    using series_by_stages(2) [OF b refl refl refl, of this] series_by_stages(2) [OF b refl refl refl, of that]
    by simp
qed

lemma chartOf_same_titles:
  assumes "estimateTitleText this = estimateTitleText that"
      and "fifthPercentileTitleText this = fifthPercentileTitleText that"
      and "ninetyFifthPercentileTitleText this = ninetyFifthPercentileTitleText that"
  shows "chartOf pf this rows = chartOf pf that rows"
  by (subst chartOf_explicit, subst (3) chartOf_explicit)
     (simp add: assms series_independent_of_reader [of pf this rows that])

lemma readerOf_titles:
  "estimateTitleText (readerOf pf this rows) = estimateTitleText this"
  "fifthPercentileTitleText (readerOf pf this rows) = fifthPercentileTitleText this"
  "ninetyFifthPercentileTitleText (readerOf pf this rows) = ninetyFifthPercentileTitleText this"
  by (simp_all add: reader_by_stages)

lemma exampleRows_second_call:
  "stepSize (readerOf utcPlatform (readerOf utcPlatform constructor exampleRows) exampleRows) = Fin 16
   \<and> maxSteps (readerOf utcPlatform (readerOf utcPlatform constructor exampleRows) exampleRows) = Fin 80"
proof -
  have m: "maxSteps (readerOf utcPlatform constructor exampleRows) = Fin 75"
    using exampleRows_first_call by simp
  show ?thesis
    by (subst reader_by_stages, subst (2) reader_by_stages)
       (simp add: m exampleRows_series Math_max4 newStepSize_def newMaxSteps_def)
qed

text \<open>
  C1. On a new reader, two calls in succession with the rows of the specification's
  example return the same chart data, but the first leaves step 15 and axis maximum 75
  and the second step 16 and axis maximum 80: the running maximum of the second call
  starts from the axis maximum that the first call stored in the reader.
\<close>

theorem second_call_changes_scale:
  "stepSize (readerOf utcPlatform constructor exampleRows) = Fin 15
   \<and> maxSteps (readerOf utcPlatform constructor exampleRows) = Fin 75
   \<and> stepSize (readerOf utcPlatform (readerOf utcPlatform constructor exampleRows) exampleRows) = Fin 16
   \<and> maxSteps (readerOf utcPlatform (readerOf utcPlatform constructor exampleRows) exampleRows) = Fin 80
   \<and> chartOf utcPlatform (readerOf utcPlatform constructor exampleRows) exampleRows
       = chartOf utcPlatform constructor exampleRows"
  using exampleRows_first_call exampleRows_second_call
    chartOf_same_titles [of "readerOf utcPlatform constructor exampleRows" constructor utcPlatform exampleRows]
  by (simp add: readerOf_titles)

lemma exampleRows_labels:
  "labels (chartOf utcPlatform constructor exampleRows) = [Some ''DEC'', Some ''JAN'']"
  by (subst chartOf_explicit)
     (simp add: exampleRows_series expectedLabels_def monthYear_def monthName_def monthNames_def
        itemTime_def utc_getters calendar_atoms upt_rec)

text \<open>
  C3. For the two rows of the specification's example, dated 15 January and 15 February
  2024, the floor is 1 December 2023 and both rows are at or after it; but the series
  holds the February record at the time of the floor (with the label \<open>DEC\<close>) and not at
  its own date: the floor is computed by changing the \<open>Date\<close> object of the latest
  record itself.
\<close>

theorem latest_record_moved_to_floor:
  "map (Date_parse utcPlatform) [''1/15/2024'', ''2/15/2024''] = [Some 1705276800000, Some 1707955200000]
   \<and> seriesTimes exampleRows = [1701388800000, 1705276800000]
   \<and> map estimate (rawData (chartOf utcPlatform constructor exampleRows)) = [Fin 48, Fin 45]
   \<and> labels (chartOf utcPlatform constructor exampleRows) = [Some ''DEC'', Some ''JAN'']"
  using exampleRows_times exampleRows_labels
  by (simp add: utc_parse parse_atoms exampleRows_series)






lemma seriesRows_build:
  "buildProcessedData utcPlatform seriesRows =
     ([\<lparr> date = 1, estimate = Fin 48, fifthPercentile = Fin 32, ninetyFifthPercentile = Fin 68 \<rparr>,
       \<lparr> date = 2, estimate = Fin 45, fifthPercentile = Fin 28, ninetyFifthPercentile = Fin 65 \<rparr>,
       \<lparr> date = 3, estimate = Fin 99, fifthPercentile = Fin 1, ninetyFifthPercentile = Fin 100 \<rparr>,
       \<lparr> date = 4, estimate = Fin 50, fifthPercentile = Fin 30, ninetyFifthPercentile = Fin 70 \<rparr>],
      \<lparr> cells = (\<lambda>a. None)(0 := Some 0, 1 := Some 1707955200000, 2 := Some 1705276800000,
                    3 := Some 1705276800000, 4 := Some 1705363200000), fresh = 5 \<rparr>,
      1)"
  by (simp add: buildProcessedData_def seriesRows_def stage_simps)

lemma seriesRows_floor:
  "moveToWindowFloor utcPlatform 1
     \<lparr> cells = (\<lambda>a. None)(0 := Some 0, 1 := Some 1707955200000, 2 := Some 1705276800000,
                    3 := Some 1705276800000, 4 := Some 1705363200000), fresh = 5 \<rparr>
   = \<lparr> cells = (\<lambda>a. None)(0 := Some 0, 1 := Some 1701388800000, 2 := Some 1705276800000,
                    3 := Some 1705276800000, 4 := Some 1705363200000), fresh = 5 \<rparr>"
  by (simp add: moveToWindowFloor_def stage_simps fun_upd_twist)

lemma seriesRows_filtered:
  "dateFilteredMinProcessedData
     \<lparr> cells = (\<lambda>a. None)(0 := Some 0, 1 := Some 1701388800000, 2 := Some 1705276800000,
                    3 := Some 1705276800000, 4 := Some 1705363200000), fresh = 5 \<rparr> 1
     [\<lparr> date = 1, estimate = Fin 48, fifthPercentile = Fin 32, ninetyFifthPercentile = Fin 68 \<rparr>,
      \<lparr> date = 2, estimate = Fin 45, fifthPercentile = Fin 28, ninetyFifthPercentile = Fin 65 \<rparr>,
      \<lparr> date = 3, estimate = Fin 99, fifthPercentile = Fin 1, ninetyFifthPercentile = Fin 100 \<rparr>,
      \<lparr> date = 4, estimate = Fin 50, fifthPercentile = Fin 30, ninetyFifthPercentile = Fin 70 \<rparr>]
   = [\<lparr> date = 1, estimate = Fin 48, fifthPercentile = Fin 32, ninetyFifthPercentile = Fin 68 \<rparr>,
      \<lparr> date = 2, estimate = Fin 45, fifthPercentile = Fin 28, ninetyFifthPercentile = Fin 65 \<rparr>,
      \<lparr> date = 3, estimate = Fin 99, fifthPercentile = Fin 1, ninetyFifthPercentile = Fin 100 \<rparr>,
      \<lparr> date = 4, estimate = Fin 50, fifthPercentile = Fin 30, ninetyFifthPercentile = Fin 70 \<rparr>]"
  by (simp add: dateFilteredMinProcessedData_def stage_simps)

lemma seriesRows_unique:
  "uniqueLoop utcPlatform
     \<lparr> cells = (\<lambda>a. None)(0 := Some 0, 1 := Some 1701388800000, 2 := Some 1705276800000,
                    3 := Some 1705276800000, 4 := Some 1705363200000), fresh = 5 \<rparr>
     [\<lparr> date = 1, estimate = Fin 48, fifthPercentile = Fin 32, ninetyFifthPercentile = Fin 68 \<rparr>,
      \<lparr> date = 2, estimate = Fin 45, fifthPercentile = Fin 28, ninetyFifthPercentile = Fin 65 \<rparr>,
      \<lparr> date = 3, estimate = Fin 99, fifthPercentile = Fin 1, ninetyFifthPercentile = Fin 100 \<rparr>,
      \<lparr> date = 4, estimate = Fin 50, fifthPercentile = Fin 30, ninetyFifthPercentile = Fin 70 \<rparr>] {} []
   = [\<lparr> date = 1, estimate = Fin 48, fifthPercentile = Fin 32, ninetyFifthPercentile = Fin 68 \<rparr>,
      \<lparr> date = 2, estimate = Fin 45, fifthPercentile = Fin 28, ninetyFifthPercentile = Fin 65 \<rparr>,
      \<lparr> date = 4, estimate = Fin 50, fifthPercentile = Fin 30, ninetyFifthPercentile = Fin 70 \<rparr>]"
  by (simp add: stage_simps)

lemmas seriesRows_series =
  series_by_stages [OF seriesRows_build seriesRows_floor seriesRows_filtered seriesRows_unique]


lemma seriesRows_labels:
  "labels (chartOf utcPlatform constructor seriesRows) = [Some ''DEC'', Some ''JAN'', Some []]"
  by (subst chartOf_explicit)
     (simp add: seriesRows_series expectedLabels_def monthYear_def monthName_def monthNames_def
        itemTime_def utc_getters calendar_atoms upt_rec)



text \<open>
  C8. The label sequence has the length of the series; the label of a record is the name
  of its month, one of the twelve three-letter names, when no earlier record of the series
  has its month and year, and the empty string otherwise; so the labels that are not
  empty are as many as the (month, year) pairs of the series.
\<close>

theorem labels_per_month_year:
  assumes "processDataForChart pf this rows = (cd, h, this')"
  shows "length (labels cd) = length (rawData cd)
       \<and> labels cd = expectedLabels pf h (rawData cd)
       \<and> list_all (\<lambda>item. \<exists>m. 0 \<le> m \<and> m < 12 \<and> getMonth pf (itemTime h item) = Some m
                         \<and> monthName (getMonth pf (itemTime h item)) = Some (monthNames ! nat m)
                         \<and> length (monthNames ! nat m) = 3) (rawData cd)
       \<and> length (filter (\<lambda>l. l \<noteq> Some []) (labels cd)) = card (monthYear pf h ` set (rawData cd))"
proof -
  have valid: "\<forall>x \<in> set (rawData cd). itemTime h x \<noteq> None" using rawData_valid [OF assms] .
  have l: "labels cd = expectedLabels pf h (rawData cd)"
    using processDataForChart_parts(2) [OF assms] labelLoop_labels [OF valid] by simp
  have names: "list_all (\<lambda>item. \<exists>m. 0 \<le> m \<and> m < 12 \<and> getMonth pf (itemTime h item) = Some m
                         \<and> monthName (getMonth pf (itemTime h item)) = Some (monthNames ! nat m)
                         \<and> length (monthNames ! nat m) = 3) (rawData cd)"
    unfolding list_all_iff
  proof
    fix item assume "item \<in> set (rawData cd)"
    with valid obtain t where t: "itemTime h item = Some t" by auto
    from monthName_valid [of pf t] show "\<exists>m. 0 \<le> m \<and> m < 12 \<and> getMonth pf (itemTime h item) = Some m
                         \<and> monthName (getMonth pf (itemTime h item)) = Some (monthNames ! nat m)
                         \<and> length (monthNames ! nat m) = 3"
      unfolding t by blast
  qed
  show ?thesis
    using l names count_expectedLabels [OF valid, of pf] by (simp add: length_expectedLabels)
qed

theorem labels_per_month_year_witness:
  "labels (chartOf utcPlatform constructor seriesRows) = [Some ''DEC'', Some ''JAN'', Some []]
   \<and> length (labels (chartOf utcPlatform constructor seriesRows))
       = length (rawData (chartOf utcPlatform constructor seriesRows))
   \<and> length (filter (\<lambda>l. l \<noteq> Some []) (labels (chartOf utcPlatform constructor seriesRows)))
       = card (monthYear utcPlatform (storeOf utcPlatform constructor seriesRows)
                 ` set (rawData (chartOf utcPlatform constructor seriesRows)))
   \<and> card (monthYear utcPlatform (storeOf utcPlatform constructor seriesRows)
                 ` set (rawData (chartOf utcPlatform constructor seriesRows))) = 2"
proof -
  from labels_per_month_year [OF processDataForChart_components [of utcPlatform constructor seriesRows]]
  have a: "length (labels (chartOf utcPlatform constructor seriesRows))
       = length (rawData (chartOf utcPlatform constructor seriesRows))"
   and b: "length (filter (\<lambda>l. l \<noteq> Some []) (labels (chartOf utcPlatform constructor seriesRows)))
       = card (monthYear utcPlatform (storeOf utcPlatform constructor seriesRows)
                 ` set (rawData (chartOf utcPlatform constructor seriesRows)))"
    by blast+
  have "length (filter (\<lambda>l. l \<noteq> Some []) (labels (chartOf utcPlatform constructor seriesRows))) = 2"
    by (simp add: seriesRows_labels)
  with a b seriesRows_labels show ?thesis by simp
qed





section \<open>The tooltip anchor\<close>

text \<open>When every index names a dataset, the two searches are \<open>find\<close> and \<open>filter\<close>.\<close>

lemma js_add_commute: "js_add a b = js_add b a"
  by (cases a; cases b) simp_all

lemma findEstimate_resolving:
  "list_all (\<lambda>el. case datasetIndex el of None \<Rightarrow> True | Some i \<Rightarrow> i < length ds) elements \<Longrightarrow>
     findEstimate ds title elements = Inr (find (inSeries ds title) elements)"
  by (induction elements)
     (auto simp: inSeries_def seriesOf_def datasetLabel_def split: option.splits)

lemma filterPercentile_resolving:
  "list_all (\<lambda>el. case datasetIndex el of None \<Rightarrow> True | Some i \<Rightarrow> i < length ds) elements \<Longrightarrow>
     filterPercentile ds t5 t95 elements
       = Inr (filter (\<lambda>el. inSeries ds t5 el \<or> inSeries ds t95 el) elements)"
  by (induction elements)
     (auto simp: inSeries_def seriesOf_def datasetLabel_def split: option.splits)

text \<open>Searching a list that holds at most one element of each of two disjoint kinds.\<close>

lemma find_unique:
  "length (filter P xs) \<le> 1 \<Longrightarrow> find P xs = Some e \<Longrightarrow>
     find (\<lambda>x. P x \<and> Q x) xs = (if Q e then Some e else None)"
proof (induction xs)
  case Nil
  then show ?case by simp
next
  case (Cons x xs)
  show ?case
  proof (cases "P x")
    case True
    with Cons.prems have e: "e = x" and none: "filter P xs = []" by auto
    from none have "find (\<lambda>x. P x \<and> Q x) xs = None" by (auto simp: find_None_iff filter_empty_conv)
    with True e show ?thesis by simp
  next
    case False
    with Cons show ?thesis by simp
  qed
qed

lemma find_conj_None: "find P xs = None \<Longrightarrow> find (\<lambda>x. P x \<and> Q x) xs = None"
  by (auto simp: find_None_iff)

lemma two_series_filter:
  assumes "\<And>x. \<not> (P x \<and> Q x)" and "length (filter P xs) \<le> 1" and "length (filter Q xs) \<le> 1"
  shows "filter (\<lambda>x. P x \<or> Q x) xs =
           (case find P xs of
              Some a \<Rightarrow>
                (case find Q xs of
                   Some b \<Rightarrow> (if find (\<lambda>x. P x \<or> Q x) xs = Some a then [a, b] else [b, a])
                 | None \<Rightarrow> [a])
            | None \<Rightarrow> (case find Q xs of Some b \<Rightarrow> [b] | None \<Rightarrow> []))"
  using assms(2,3)
proof (induction xs)
  case Nil
  then show ?case by simp
next
  case (Cons x xs)
  consider "P x" | "Q x" | "\<not> P x" "\<not> Q x" by blast
  then show ?case
  proof cases
    case 1
    with assms(1) have nq: "\<not> Q x" by blast
    from 1 Cons.prems have fp: "filter P xs = []" by auto
    then have np: "find P xs = None" by (auto simp: find_None_iff filter_empty_conv)
    from Cons.prems nq have lq: "length (filter Q xs) \<le> 1" by simp
    have "filter (\<lambda>x. P x \<or> Q x) xs = (case find Q xs of Some b \<Rightarrow> [b] | None \<Rightarrow> [])"
      using Cons.IH lq fp np by (simp split: option.splits)
    with 1 nq show ?thesis by (simp split: option.splits)
  next
    case 2
    with assms(1) have np: "\<not> P x" by blast
    from 2 Cons.prems have fq: "filter Q xs = []" by auto
    then have nq: "find Q xs = None" by (auto simp: find_None_iff filter_empty_conv)
    from Cons.prems np have lp: "length (filter P xs) \<le> 1" by simp
    have "filter (\<lambda>x. P x \<or> Q x) xs = (case find P xs of Some a \<Rightarrow> [a] | None \<Rightarrow> [])"
      using Cons.IH lp fq nq by (simp split: option.splits)
    moreover have "find P xs = Some a \<Longrightarrow> a \<noteq> x" for a
      using np by (auto simp: find_Some_iff)
    ultimately show ?thesis using 2 np by (auto split: option.splits)
  next
    case 3
    with Cons show ?thesis by (simp cong: option.case_cong)
  qed
qed


lemma find_as_filter: "find R xs = (case filter R xs of [] \<Rightarrow> None | x # _ \<Rightarrow> Some x)"
  by (induction xs) simp_all

lemma positioner_resolving:
  assumes "list_all (\<lambda>el. case datasetIndex el of None \<Rightarrow> True | Some i \<Rightarrow> i < length ds) elements"
  shows "einCustomPositioner this ds elements eventPosition =
           Inr (withBias
             (if elements = [] then eventPosition
              else
                (case (case find (inSeries ds (estimateTitleText this)) elements of
                         None \<Rightarrow> None
                       | Some el \<Rightarrow> if xpos (element el) \<noteq> None then Some el else None) of
                   Some el \<Rightarrow> position el
                 | None \<Rightarrow>
                     (case filter (\<lambda>el. inSeries ds (fifthPercentileTitleText this) el
                                     \<or> inSeries ds (ninetyFifthPercentileTitleText this) el) elements of
                        [] \<Rightarrow> centroid elements
                      | [p] \<Rightarrow> position p
                      | p # q # _ \<Rightarrow>
                          (fst (position p),
                           js_div (js_add (snd (position p)) (snd (position q))) (Fin 2))))))"
  unfolding einCustomPositioner_def findEstimate_resolving [OF assms]
    filterPercentile_resolving [OF assms]
  by (simp add: withBias_def position_def centroid_def xOffset_def yOffset_def Let_def
           split: option.splits list.splits)

lemma estimate_rule:
  assumes one: "length (filter (inSeries ds t) elements) \<le> 1"
    and together: "list_all (\<lambda>el. (xpos (element el) = None) = (ypos (element el) = None)) elements"
  shows "(case find (inSeries ds t) elements of
            None \<Rightarrow> None
          | Some el \<Rightarrow> if xpos (element el) \<noteq> None then Some el else None)
         = find (\<lambda>el. inSeries ds t el \<and> resolved el) elements"
proof (cases "find (inSeries ds t) elements")
  case None
  then show ?thesis by (simp add: find_conj_None)
next
  case (Some e)
  then have "e \<in> set elements" by (auto simp: find_Some_iff)
  with together have "resolved e = (xpos (element e) \<noteq> None)"
    by (auto simp: resolved_def list_all_iff)
  with Some find_unique [OF one Some, of resolved] show ?thesis by simp
qed

text \<open>
  C5, as amended. For active elements whose dataset indices all name a dataset of the
  chart, whose coordinates are resolved together, and of which each of the three named
  series has at most one, and for every fallback cursor, \<open>einCustomPositioner\<close>
  returns the point of the priority rule: the fallback cursor when there is no element;
  the position of the Estimate element with resolved coordinates; with elements of both
  percentile series the x of the first of them and the midpoint of the two y, with one
  only its position; otherwise the mean of the coordinates of all elements; each with the
  bias \<open>(0, -10)\<close> added.
\<close>

theorem einCustomPositioner_selects_anchor:
  assumes "wellFormedElements this ds elements"
  shows "einCustomPositioner this ds elements fallbackCursor
           = Inr (selectAnchor this ds elements fallbackCursor)"
proof -
  let ?P = "inSeries ds (fifthPercentileTitleText this)"
  let ?Q = "inSeries ds (ninetyFifthPercentileTitleText this)"
  from assms have
    resolving: "list_all (\<lambda>el. case datasetIndex el of None \<Rightarrow> True | Some i \<Rightarrow> i < length ds) elements"
    and together: "list_all (\<lambda>el. (xpos (element el) = None) = (ypos (element el) = None)) elements"
    and oneE: "length (filter (inSeries ds (estimateTitleText this)) elements) \<le> 1"
    and oneP: "length (filter ?P elements) \<le> 1"
    and oneQ: "length (filter ?Q elements) \<le> 1"
    and distinct: "fifthPercentileTitleText this \<noteq> ninetyFifthPercentileTitleText this"
    by (simp_all add: wellFormedElements_def)
  from distinct have excl: "\<not> (?P x \<and> ?Q x)" for x
    by (auto simp: inSeries_def)
  note ps = two_series_filter [of ?P ?Q elements, OF excl oneP oneQ]
  have first: "find (\<lambda>el. ?P el \<or> ?Q el) elements
                 = (case filter (\<lambda>el. ?P el \<or> ?Q el) elements of [] \<Rightarrow> None | x # _ \<Rightarrow> Some x)"
    by (rule find_as_filter)
  have percentiles:
    "(case filter (\<lambda>el. ?P el \<or> ?Q el) elements of
        [] \<Rightarrow> centroid elements
      | [p] \<Rightarrow> position p
      | p # q # _ \<Rightarrow>
          (fst (position p), js_div (js_add (snd (position p)) (snd (position q))) (Fin 2)))
     = (case find ?P elements of
          Some lo \<Rightarrow>
            (case find ?Q elements of
               Some hi \<Rightarrow>
                 (case find (\<lambda>el. ?P el \<or> ?Q el) elements of
                    Some first \<Rightarrow>
                      (fst (position first),
                       js_div (js_add (snd (position lo)) (snd (position hi))) (Fin 2))
                  | None \<Rightarrow> centroid elements)
             | None \<Rightarrow> position lo)
        | None \<Rightarrow>
            (case find ?Q elements of
               Some hi \<Rightarrow> position hi
             | None \<Rightarrow> centroid elements))"
  proof (cases "find ?P elements")
    case None
    with ps show ?thesis by (simp split: option.splits)
  next
    case lo: (Some lo)
    show ?thesis
    proof (cases "find ?Q elements")
      case None
      with ps lo show ?thesis by simp
    next
      case hi: (Some hi)
      show ?thesis
      proof (cases "find (\<lambda>el. ?P el \<or> ?Q el) elements = Some lo")
        case True
        with ps lo hi show ?thesis by simp
      next
        case False
        with ps lo hi have "filter (\<lambda>el. ?P el \<or> ?Q el) elements = [hi, lo]" by simp
        with first lo hi show ?thesis
          by (simp add: js_add_commute [of "snd (position hi)"])
      qed
    qed
  qed
  show ?thesis
    unfolding positioner_resolving [OF resolving] selectAnchor_def
      estimate_rule [OF oneE together] percentiles
    by simp
qed

text \<open>
  The three examples of the specification: the two percentile elements at
  \<open>(10, 20)\<close> and \<open>(10, 40)\<close>, an Estimate element at \<open>(5, 5)\<close> among others, and no
  element with the cursor at \<open>(3, 4)\<close>.
\<close>

theorem einCustomPositioner_selects_anchor_witness:
  "wellFormedElements constructor exampleDatasets [pointAt 0 10 20, pointAt 1 10 40]
   \<and> einCustomPositioner constructor exampleDatasets [pointAt 0 10 20, pointAt 1 10 40] (Fin 3, Fin 4)
       = Inr (Fin 10, Fin 20)
   \<and> wellFormedElements constructor exampleDatasets [pointAt 1 1 2, pointAt 2 5 5, pointAt 0 7 8]
   \<and> einCustomPositioner constructor exampleDatasets [pointAt 1 1 2, pointAt 2 5 5, pointAt 0 7 8] (Fin 3, Fin 4)
       = Inr (Fin 5, Fin (- 5))
   \<and> wellFormedElements constructor exampleDatasets []
   \<and> einCustomPositioner constructor exampleDatasets [] (Fin 3, Fin 4) = Inr (Fin 3, Fin (- 6))"
  using einCustomPositioner_selects_anchor [of constructor exampleDatasets "[pointAt 0 10 20, pointAt 1 10 40]" "(Fin 3, Fin 4)"]
    einCustomPositioner_selects_anchor [of constructor exampleDatasets "[pointAt 1 1 2, pointAt 2 5 5, pointAt 0 7 8]" "(Fin 3, Fin 4)"]
    einCustomPositioner_selects_anchor [of constructor exampleDatasets "[]" "(Fin 3, Fin 4)"]
  by (simp add: wellFormedElements_def selectAnchor_def inSeries_def seriesOf_def resolved_def
        position_def withBias_def centroid_def pointAt_def exampleDatasets_def constructor_def
        toNumber_def)

text \<open>
  The claim as stated, for every set of active elements, fails. Of two Estimate elements
  the first found decides: when it has no coordinates the second, at \<open>(5, 5)\<close>, is not
  the anchor, and the mean over all elements is \<open>NaN\<close>. Two elements of the one series
  5th Percentile are averaged as if they were the two percentile series. An element whose
  index names no dataset makes the positioner throw.
\<close>

theorem second_estimate_element_ignored:
  "einCustomPositioner constructor exampleDatasets [unresolvedAt 2, pointAt 2 5 5] (Fin 3, Fin 4)
     = Inr (NaN, NaN)
   \<and> selectAnchor constructor exampleDatasets [unresolvedAt 2, pointAt 2 5 5] (Fin 3, Fin 4)
     = (Fin 5, Fin (- 5))
   \<and> einCustomPositioner constructor exampleDatasets [pointAt 0 10 20, pointAt 0 30 40] (Fin 3, Fin 4)
     = Inr (Fin 10, Fin 20)
   \<and> selectAnchor constructor exampleDatasets [pointAt 0 10 20, pointAt 0 30 40] (Fin 3, Fin 4)
     = (Fin 10, Fin 10)
   \<and> withBias (centroid [pointAt 0 10 20, pointAt 0 30 40]) = (Fin 20, Fin 20)
   \<and> einCustomPositioner constructor exampleDatasets [pointAt 3 1 1] (Fin 3, Fin 4) = Inl TypeError"
  by (simp add: einCustomPositioner_def selectAnchor_def inSeries_def seriesOf_def resolved_def
        position_def withBias_def centroid_def pointAt_def unresolvedAt_def exampleDatasets_def
        constructor_def datasetLabel_def sumX_def sumY_def toNumber_def xOffset_def yOffset_def)

end
